theory Spec2Isabelle
  imports Complex_Main "HOL-Library.Word"
begin

unbundle bit_operations_syntax

section \<open>The pipeline statistics example: data model\<close>

text \<open>
  The program is the class \<open>VulkanExample\<close> of
  \<^verbatim>\<open>examples/pipelinestatistics/pipelinestatistics.cpp\<close>. Its member functions are
  embedded as functions on a record of the members they read and write. Calls into the
  Vulkan API and into the example framework are effects: each one is appended to the
  list \<open>calls\<close> of the record, in program order, and the commands recorded into a
  frame's command buffer are a list of their own, handed over with \<open>submitFrame\<close>.
\<close>

subsection \<open>Constants of the Vulkan headers\<close>

text \<open>
  The example includes the Vulkan headers through the framework. The enumerators it
  names have the values of \<^verbatim>\<open>vulkan_core.h\<close>: flag bits are 32-bit words, \<open>VkResult\<close>
  is a signed integer.
\<close>

type_synonym VkFlags = "32 word"
type_synonym VkResult = int

definition VK_SUCCESS :: VkResult where
  "VK_SUCCESS = 0"

definition VK_ERROR_FEATURE_NOT_PRESENT :: VkResult where
  "VK_ERROR_FEATURE_NOT_PRESENT = - 8"

definition VK_QUERY_PIPELINE_STATISTIC_INPUT_ASSEMBLY_VERTICES_BIT :: VkFlags where
  "VK_QUERY_PIPELINE_STATISTIC_INPUT_ASSEMBLY_VERTICES_BIT = 0x001"

definition VK_QUERY_PIPELINE_STATISTIC_INPUT_ASSEMBLY_PRIMITIVES_BIT :: VkFlags where
  "VK_QUERY_PIPELINE_STATISTIC_INPUT_ASSEMBLY_PRIMITIVES_BIT = 0x002"

definition VK_QUERY_PIPELINE_STATISTIC_VERTEX_SHADER_INVOCATIONS_BIT :: VkFlags where
  "VK_QUERY_PIPELINE_STATISTIC_VERTEX_SHADER_INVOCATIONS_BIT = 0x004"

definition VK_QUERY_PIPELINE_STATISTIC_GEOMETRY_SHADER_INVOCATIONS_BIT :: VkFlags where
  "VK_QUERY_PIPELINE_STATISTIC_GEOMETRY_SHADER_INVOCATIONS_BIT = 0x008"

definition VK_QUERY_PIPELINE_STATISTIC_GEOMETRY_SHADER_PRIMITIVES_BIT :: VkFlags where
  "VK_QUERY_PIPELINE_STATISTIC_GEOMETRY_SHADER_PRIMITIVES_BIT = 0x010"

definition VK_QUERY_PIPELINE_STATISTIC_CLIPPING_INVOCATIONS_BIT :: VkFlags where
  "VK_QUERY_PIPELINE_STATISTIC_CLIPPING_INVOCATIONS_BIT = 0x020"

definition VK_QUERY_PIPELINE_STATISTIC_CLIPPING_PRIMITIVES_BIT :: VkFlags where
  "VK_QUERY_PIPELINE_STATISTIC_CLIPPING_PRIMITIVES_BIT = 0x040"

definition VK_QUERY_PIPELINE_STATISTIC_FRAGMENT_SHADER_INVOCATIONS_BIT :: VkFlags where
  "VK_QUERY_PIPELINE_STATISTIC_FRAGMENT_SHADER_INVOCATIONS_BIT = 0x080"

definition VK_QUERY_PIPELINE_STATISTIC_TESSELLATION_CONTROL_SHADER_PATCHES_BIT :: VkFlags where
  "VK_QUERY_PIPELINE_STATISTIC_TESSELLATION_CONTROL_SHADER_PATCHES_BIT = 0x100"

definition VK_QUERY_PIPELINE_STATISTIC_TESSELLATION_EVALUATION_SHADER_INVOCATIONS_BIT :: VkFlags where
  "VK_QUERY_PIPELINE_STATISTIC_TESSELLATION_EVALUATION_SHADER_INVOCATIONS_BIT = 0x200"

definition VK_QUERY_PIPELINE_STATISTIC_COMPUTE_SHADER_INVOCATIONS_BIT :: VkFlags where
  "VK_QUERY_PIPELINE_STATISTIC_COMPUTE_SHADER_INVOCATIONS_BIT = 0x400"

text \<open>The eleven counters a pipeline statistics query can return, in bit order.\<close>

definition all_pipeline_statistic_bits :: "VkFlags list" where
  "all_pipeline_statistic_bits =
     [VK_QUERY_PIPELINE_STATISTIC_INPUT_ASSEMBLY_VERTICES_BIT,
      VK_QUERY_PIPELINE_STATISTIC_INPUT_ASSEMBLY_PRIMITIVES_BIT,
      VK_QUERY_PIPELINE_STATISTIC_VERTEX_SHADER_INVOCATIONS_BIT,
      VK_QUERY_PIPELINE_STATISTIC_GEOMETRY_SHADER_INVOCATIONS_BIT,
      VK_QUERY_PIPELINE_STATISTIC_GEOMETRY_SHADER_PRIMITIVES_BIT,
      VK_QUERY_PIPELINE_STATISTIC_CLIPPING_INVOCATIONS_BIT,
      VK_QUERY_PIPELINE_STATISTIC_CLIPPING_PRIMITIVES_BIT,
      VK_QUERY_PIPELINE_STATISTIC_FRAGMENT_SHADER_INVOCATIONS_BIT,
      VK_QUERY_PIPELINE_STATISTIC_TESSELLATION_CONTROL_SHADER_PATCHES_BIT,
      VK_QUERY_PIPELINE_STATISTIC_TESSELLATION_EVALUATION_SHADER_INVOCATIONS_BIT,
      VK_QUERY_PIPELINE_STATISTIC_COMPUTE_SHADER_INVOCATIONS_BIT]"

definition VK_QUERY_RESULT_64_BIT :: VkFlags where
  "VK_QUERY_RESULT_64_BIT = 0x1"

definition VK_CULL_MODE_BACK_BIT :: int where
  "VK_CULL_MODE_BACK_BIT = 2"

definition VK_COLOR_COMPONENT_R_BIT :: VkFlags where
  "VK_COLOR_COMPONENT_R_BIT = 0x1"

definition VK_COLOR_COMPONENT_G_BIT :: VkFlags where
  "VK_COLOR_COMPONENT_G_BIT = 0x2"

definition VK_COLOR_COMPONENT_B_BIT :: VkFlags where
  "VK_COLOR_COMPONENT_B_BIT = 0x4"

definition VK_COLOR_COMPONENT_A_BIT :: VkFlags where
  "VK_COLOR_COMPONENT_A_BIT = 0x8"

datatype VkQueryType =
    VK_QUERY_TYPE_OCCLUSION
  | VK_QUERY_TYPE_PIPELINE_STATISTICS
  | VK_QUERY_TYPE_TIMESTAMP

datatype VkPolygonMode =
    VK_POLYGON_MODE_FILL
  | VK_POLYGON_MODE_LINE
  | VK_POLYGON_MODE_POINT

datatype VkFrontFace =
    VK_FRONT_FACE_COUNTER_CLOCKWISE
  | VK_FRONT_FACE_CLOCKWISE

datatype VkPrimitiveTopology =
    VK_PRIMITIVE_TOPOLOGY_POINT_LIST
  | VK_PRIMITIVE_TOPOLOGY_LINE_LIST
  | VK_PRIMITIVE_TOPOLOGY_LINE_STRIP
  | VK_PRIMITIVE_TOPOLOGY_TRIANGLE_LIST
  | VK_PRIMITIVE_TOPOLOGY_TRIANGLE_STRIP
  | VK_PRIMITIVE_TOPOLOGY_TRIANGLE_FAN
  | VK_PRIMITIVE_TOPOLOGY_PATCH_LIST

datatype VkBlendFactor =
    VK_BLEND_FACTOR_ZERO
  | VK_BLEND_FACTOR_ONE
  | VK_BLEND_FACTOR_SRC_COLOR
  | VK_BLEND_FACTOR_ONE_MINUS_SRC_COLOR
  | VK_BLEND_FACTOR_DST_COLOR
  | VK_BLEND_FACTOR_ONE_MINUS_DST_COLOR
  | VK_BLEND_FACTOR_SRC_ALPHA
  | VK_BLEND_FACTOR_ONE_MINUS_SRC_ALPHA

datatype VkBlendOp =
    VK_BLEND_OP_ADD
  | VK_BLEND_OP_SUBTRACT

datatype VkCompareOp =
    VK_COMPARE_OP_NEVER
  | VK_COMPARE_OP_LESS
  | VK_COMPARE_OP_EQUAL
  | VK_COMPARE_OP_LESS_OR_EQUAL

datatype VkShaderStageFlagBits =
    VK_SHADER_STAGE_VERTEX_BIT
  | VK_SHADER_STAGE_TESSELLATION_CONTROL_BIT
  | VK_SHADER_STAGE_TESSELLATION_EVALUATION_BIT
  | VK_SHADER_STAGE_GEOMETRY_BIT
  | VK_SHADER_STAGE_FRAGMENT_BIT

subsection \<open>Structures\<close>

text \<open>The three members of \<open>VkPhysicalDeviceFeatures\<close> the example reads or sets.\<close>

record VkPhysicalDeviceFeatures =
  pipelineStatisticsQuery :: bool
  fillModeNonSolid :: bool
  tessellationShader :: bool

record VkQueryPoolCreateInfo =
  queryType :: VkQueryType
  pipelineStatistics :: VkFlags
  queryCount :: nat

record VkPipelineInputAssemblyStateCreateInfo =
  topology :: VkPrimitiveTopology
  primitiveRestartEnable :: bool

record VkPipelineRasterizationStateCreateInfo =
  polygonMode :: VkPolygonMode
  cullMode_rs :: int
  frontFace :: VkFrontFace
  rasterizerDiscardEnable :: bool

record VkPipelineColorBlendAttachmentState =
  colorWriteMask :: VkFlags
  blendEnable :: bool
  srcColorBlendFactor :: VkBlendFactor
  dstColorBlendFactor :: VkBlendFactor
  colorBlendOp :: VkBlendOp
  srcAlphaBlendFactor :: VkBlendFactor
  dstAlphaBlendFactor :: VkBlendFactor
  alphaBlendOp :: VkBlendOp

record VkPipelineDepthStencilStateCreateInfo =
  depthTestEnable :: bool
  depthWriteEnable :: bool
  depthCompareOp :: VkCompareOp

text \<open>A shader stage: the file \<open>loadShader\<close> reads and the stage it is bound to.\<close>

type_synonym VkPipelineShaderStageCreateInfo = "(string \<times> VkShaderStageFlagBits) option"

text \<open>
  \<open>VkGraphicsPipelineCreateInfo\<close> refers to its state structures by pointer. The record
  holds what the pointers lead to when \<open>vkCreateGraphicsPipelines\<close> reads them; an unset
  \<open>pTessellationState\<close> is \<open>None\<close>, a set one holds \<open>patchControlPoints\<close>.
\<close>

record VkGraphicsPipelineCreateInfo =
  pInputAssemblyState :: VkPipelineInputAssemblyStateCreateInfo
  pRasterizationState :: VkPipelineRasterizationStateCreateInfo
  pColorBlendState :: "VkPipelineColorBlendAttachmentState list"
  pDepthStencilState :: VkPipelineDepthStencilStateCreateInfo
  pTessellationState :: "nat option"
  stageCount :: nat
  pStages :: "VkPipelineShaderStageCreateInfo list"

type_synonym vec3 = "rat \<times> rat \<times> rat"

text \<open>Commands recorded into a command buffer.\<close>

datatype cmd =
    vkCmdResetQueryPool nat nat
  | vkCmdBeginRenderPass
  | vkCmdSetViewport
  | vkCmdSetScissor
  | vkCmdBeginQuery nat VkFlags
  | vkCmdBindDescriptorSets
  | vkCmdBindPipeline "VkGraphicsPipelineCreateInfo option"
  | bindBuffers nat
  | vkCmdPushConstants vec3
  | draw nat
  | vkCmdEndQuery nat
  | UIOverlay_draw
  | vkCmdEndRenderPass

text \<open>
  Calls the program makes on the host, with the arguments the properties below are
  about. \<open>vkGetQueryPoolResults\<close> carries \<open>firstQuery\<close>, \<open>queryCount\<close>, \<open>dataSize\<close>,
  \<open>stride\<close> and \<open>flags\<close>; \<open>overlay_*\<close> are the widgets of the framework's \<open>UIOverlay\<close>.
\<close>

datatype call =
    createAndMapBuffer
  | loadFromFile string
  | vkCreateQueryPool VkQueryPoolCreateInfo
  | vkCreateDescriptorPool nat
  | vkCreateDescriptorSetLayout
  | vkAllocateDescriptorSets
  | vkUpdateDescriptorSets
  | vkCreatePipelineLayout
  | vkQueueWaitIdle
  | vkDestroyPipeline
  | vkCreateGraphicsPipelines VkGraphicsPipelineCreateInfo
  | prepareFrame
  | vkGetQueryPoolResults nat nat nat nat VkFlags
  | memcpy_uniformData
  | vkBeginCommandBuffer
  | vkEndCommandBuffer
  | submitFrame "cmd list"
  | overlay_header string
  | overlay_comboBox string
  | overlay_sliderInt string int int
  | overlay_checkBox string
  | overlay_text string "64 word"

text \<open>
  How the program can stop: \<open>exitFatal\<close> with its message and exit code, a call wrapped
  in \<open>VK_CHECK_RESULT\<close> that did not return \<open>VK_SUCCESS\<close>, or a vector indexed outside
  its bounds.

  Modelled from the spec: \<open>vks::tools::exitFatal\<close> belongs to the example framework and
  is not among the sources. The spec calls it a fatal exit: the program ends there, with
  the message and the code it was given.
\<close>

datatype error =
    ExitFatal string VkResult
  | CheckResult VkResult
  | OutOfRange

text \<open>
  The members of \<open>VulkanExample\<close>, and of its base class where the example reads them:
  \<open>deviceFeatures\<close> and \<open>enabledFeatures\<close>, the number of frames in flight
  (\<open>getFrameCount()\<close>) and the asset and shader directories. \<open>int32_t\<close> members are
  integers: the values the program stores in them stay far inside 32 bits. A Vulkan
  handle is \<open>None\<close> while it is \<open>VK_NULL_HANDLE\<close> and afterwards holds the parameters
  the object was created with.
\<close>

record VulkanExample =
  deviceFeatures :: VkPhysicalDeviceFeatures
  enabledFeatures :: VkPhysicalDeviceFeatures
  frameCount :: nat
  assetPath :: string
  shadersPath :: string
  frameObjects :: nat
  models_objects :: "string list"
  models_objectIndex :: int
  models_names :: "string list"
  gridSize :: int
  cullMode :: int
  blending :: bool
  discard :: bool
  wireframe :: bool
  tessellation :: bool
  pipeline :: "VkGraphicsPipelineCreateInfo option"
  pipelineLayout :: "unit option"
  pipelineStats :: "64 word list"
  pipelineStatNames :: "string list"
  queryPool :: "VkQueryPoolCreateInfo option"
  prepared :: bool
  calls :: "call list"

text \<open>
  The driver is the environment: it decides what each checked call returns.
\<close>

type_synonym driver = "call \<Rightarrow> VkResult"

section \<open>Operations\<close>

definition bind_result :: "error + 'a \<Rightarrow> ('a \<Rightarrow> error + 'b) \<Rightarrow> error + 'b" where
  "bind_result m f = (case m of Inl e \<Rightarrow> Inl e | Inr x \<Rightarrow> f x)"

definition emit :: "call \<Rightarrow> VulkanExample \<Rightarrow> VulkanExample" where
  "emit c s = s\<lparr>calls := calls s @ [c]\<rparr>"

text \<open>
  Modelled from the spec: the macro \<open>VK_CHECK_RESULT\<close> is defined in the headers of the
  example framework, which the spec counts as external and which is not among the
  sources. The spec knows no recovery from a failed call: the macro makes the call and
  the program stops unless the result is \<open>VK_SUCCESS\<close>. What a call returns is up to the
  driver.
\<close>

definition VK_CHECK_RESULT :: "driver \<Rightarrow> call \<Rightarrow> VulkanExample \<Rightarrow> error + VulkanExample" where
  "VK_CHECK_RESULT drv c s =
     (if drv c = VK_SUCCESS then Inr (emit c s) else Inl (CheckResult (drv c)))"

text \<open>\<open>std::vector::resize\<close>: keep a prefix, or pad with the default value.\<close>

definition resize :: "'a list \<Rightarrow> nat \<Rightarrow> 'a \<Rightarrow> 'a list" where
  "resize xs n d = take n xs @ replicate (n - length xs) d"

subsection \<open>Construction and feature selection\<close>

text \<open>
  The member initialisers of the class. What the framework supplies, the physical
  device's features, the frame count and the two directories, are parameters;
  \<open>enabledFeatures\<close> starts with every feature off.
\<close>

definition VulkanExample_new ::
    "VkPhysicalDeviceFeatures \<Rightarrow> nat \<Rightarrow> string \<Rightarrow> string \<Rightarrow> VulkanExample" where
  "VulkanExample_new features frames assets shaders =
     \<lparr>deviceFeatures = features,
      enabledFeatures = \<lparr>pipelineStatisticsQuery = False, fillModeNonSolid = False,
                         tessellationShader = False\<rparr>,
      frameCount = frames,
      assetPath = assets,
      shadersPath = shaders,
      frameObjects = 0,
      models_objects = [],
      models_objectIndex = 3,
      models_names = [],
      gridSize = 3,
      cullMode = VK_CULL_MODE_BACK_BIT,
      blending = False,
      discard = False,
      wireframe = False,
      tessellation = False,
      pipeline = None,
      pipelineLayout = None,
      pipelineStats = [],
      pipelineStatNames = [],
      queryPool = None,
      prepared = False,
      calls = []\<rparr>"

definition getEnabledFeatures :: "VulkanExample \<Rightarrow> error + VulkanExample" where
  "getEnabledFeatures s =
     bind_result
       (if pipelineStatisticsQuery (deviceFeatures s)
        then Inr (s\<lparr>enabledFeatures := (enabledFeatures s)\<lparr>pipelineStatisticsQuery := True\<rparr>\<rparr>)
        else Inl (ExitFatal ''Selected GPU does not support pipeline statistics!''
                    VK_ERROR_FEATURE_NOT_PRESENT))
       (\<lambda>s1.
          let s2 = (if fillModeNonSolid (deviceFeatures s1)
                    then s1\<lparr>enabledFeatures := (enabledFeatures s1)\<lparr>fillModeNonSolid := True\<rparr>\<rparr>
                    else s1);
              s3 = (if tessellationShader (deviceFeatures s2)
                    then s2\<lparr>enabledFeatures := (enabledFeatures s2)\<lparr>tessellationShader := True\<rparr>\<rparr>
                    else s2)
          in Inr s3)"

subsection \<open>The query pool\<close>

text \<open>The structure \<open>createQueryPool\<close> fills in before it calls \<open>vkCreateQueryPool\<close>.\<close>

definition queryPoolInfo :: "VulkanExample \<Rightarrow> VkQueryPoolCreateInfo" where
  "queryPoolInfo s =
     (let info0 = \<lparr>queryType = VK_QUERY_TYPE_PIPELINE_STATISTICS,
                   pipelineStatistics =
                     VK_QUERY_PIPELINE_STATISTIC_INPUT_ASSEMBLY_VERTICES_BIT OR
                     VK_QUERY_PIPELINE_STATISTIC_INPUT_ASSEMBLY_PRIMITIVES_BIT OR
                     VK_QUERY_PIPELINE_STATISTIC_VERTEX_SHADER_INVOCATIONS_BIT OR
                     VK_QUERY_PIPELINE_STATISTIC_CLIPPING_INVOCATIONS_BIT OR
                     VK_QUERY_PIPELINE_STATISTIC_CLIPPING_PRIMITIVES_BIT OR
                     VK_QUERY_PIPELINE_STATISTIC_FRAGMENT_SHADER_INVOCATIONS_BIT,
                   queryCount = 0\<rparr>;
          info1 = (if tessellationShader (deviceFeatures s)
                   then info0\<lparr>pipelineStatistics := pipelineStatistics info0 OR
                          (VK_QUERY_PIPELINE_STATISTIC_TESSELLATION_CONTROL_SHADER_PATCHES_BIT OR
                           VK_QUERY_PIPELINE_STATISTIC_TESSELLATION_EVALUATION_SHADER_INVOCATIONS_BIT)\<rparr>
                   else info0)
      in info1\<lparr>queryCount := (if tessellationShader (deviceFeatures s) then 8 else 6)\<rparr>)"

definition createQueryPool :: "driver \<Rightarrow> VulkanExample \<Rightarrow> error + VulkanExample" where
  "createQueryPool drv s =
     (let names = [''Input assembly vertex count        '',
                   ''Input assembly primitives count    '',
                   ''Vertex shader invocations          '',
                   ''Clipping stage primitives processed'',
                   ''Clipping stage primitives output    '',
                   ''Fragment shader invocations        ''];
          s1 = s\<lparr>pipelineStatNames :=
                   (if tessellationShader (deviceFeatures s)
                    then names @ [''Tess. control shader patches       ''] @
                                 [''Tess. eval. shader invocations     '']
                    else names)\<rparr>;
          s2 = s1\<lparr>pipelineStats := resize (pipelineStats s1) (length (pipelineStatNames s1)) 0\<rparr>
      in bind_result (VK_CHECK_RESULT drv (vkCreateQueryPool (queryPoolInfo s2)) s2)
           (\<lambda>s3. Inr (s3\<lparr>queryPool := Some (queryPoolInfo s2)\<rparr>)))"

subsection \<open>Assets and descriptors\<close>

function loadAssets_loop :: "string list \<Rightarrow> nat \<Rightarrow> VulkanExample \<Rightarrow> VulkanExample" where
  "loadAssets_loop filenames i s =
     (if i < length filenames
      then loadAssets_loop filenames (Suc i)
             (emit (loadFromFile (assetPath s @ ''models/'' @ filenames ! i))
                (s\<lparr>models_objects :=
                     (models_objects s)[i := assetPath s @ ''models/'' @ filenames ! i]\<rparr>))
      else s)"
  by pat_completeness auto
termination
  by (relation "measure (\<lambda>(filenames, i, s). length filenames - i)") auto

declare loadAssets_loop.simps [simp del]

text \<open>A model is the file it was loaded from; a model not yet loaded is the empty name.\<close>

definition loadAssets :: "VulkanExample \<Rightarrow> VulkanExample" where
  "loadAssets s =
     (let filenames = [''sphere.gltf'', ''teapot.gltf'', ''torusknot.gltf'', ''venus.gltf''];
          s1 = s\<lparr>models_names := [''Sphere'', ''Teapot'', ''Torusknot'', ''Venus'']\<rparr>;
          s2 = s1\<lparr>models_objects := resize (models_objects s1) (length filenames) []\<rparr>
      in loadAssets_loop filenames 0 s2)"

fun createDescriptors_sets :: "driver \<Rightarrow> nat \<Rightarrow> VulkanExample \<Rightarrow> error + VulkanExample" where
  "createDescriptors_sets drv 0 s = Inr s"
| "createDescriptors_sets drv (Suc n) s =
     bind_result (VK_CHECK_RESULT drv vkAllocateDescriptorSets s)
       (\<lambda>s1. createDescriptors_sets drv n (emit vkUpdateDescriptorSets s1))"

definition createDescriptors :: "driver \<Rightarrow> VulkanExample \<Rightarrow> error + VulkanExample" where
  "createDescriptors drv s =
     bind_result (VK_CHECK_RESULT drv (vkCreateDescriptorPool (3 * frameCount s)) s)
       (\<lambda>s1. bind_result (VK_CHECK_RESULT drv vkCreateDescriptorSetLayout s1)
          (\<lambda>s2. createDescriptors_sets drv (frameObjects s2) s2))"

subsection \<open>The pipeline\<close>

text \<open>
  Modelled from the spec: the functions of \<open>vks::initializers\<close> and \<open>loadShader\<close> belong
  to the example framework, which the spec counts as external and which is not among
  the sources. Each initialiser returns the Vulkan structure of its name with the
  arguments stored in the members they are named after and every other member zero;
  \<open>loadShader\<close> returns the stage description for a shader file.
\<close>

definition pipelineInputAssemblyStateCreateInfo ::
    "VkPrimitiveTopology \<Rightarrow> VkFlags \<Rightarrow> bool \<Rightarrow> VkPipelineInputAssemblyStateCreateInfo" where
  "pipelineInputAssemblyStateCreateInfo topo flags restart =
     \<lparr>topology = topo, primitiveRestartEnable = restart\<rparr>"

definition pipelineRasterizationStateCreateInfo ::
    "VkPolygonMode \<Rightarrow> int \<Rightarrow> VkFrontFace \<Rightarrow> VkFlags \<Rightarrow> VkPipelineRasterizationStateCreateInfo" where
  "pipelineRasterizationStateCreateInfo mode cull front flags =
     \<lparr>polygonMode = mode, cullMode_rs = cull, frontFace = front,
      rasterizerDiscardEnable = False\<rparr>"

definition pipelineColorBlendAttachmentState ::
    "VkFlags \<Rightarrow> bool \<Rightarrow> VkPipelineColorBlendAttachmentState" where
  "pipelineColorBlendAttachmentState writeMask enable =
     \<lparr>colorWriteMask = writeMask, blendEnable = enable,
      srcColorBlendFactor = VK_BLEND_FACTOR_ZERO, dstColorBlendFactor = VK_BLEND_FACTOR_ZERO,
      colorBlendOp = VK_BLEND_OP_ADD,
      srcAlphaBlendFactor = VK_BLEND_FACTOR_ZERO, dstAlphaBlendFactor = VK_BLEND_FACTOR_ZERO,
      alphaBlendOp = VK_BLEND_OP_ADD\<rparr>"

definition pipelineDepthStencilStateCreateInfo ::
    "bool \<Rightarrow> bool \<Rightarrow> VkCompareOp \<Rightarrow> VkPipelineDepthStencilStateCreateInfo" where
  "pipelineDepthStencilStateCreateInfo test write cmp =
     \<lparr>depthTestEnable = test, depthWriteEnable = write, depthCompareOp = cmp\<rparr>"

definition loadShader :: "string \<Rightarrow> VkShaderStageFlagBits \<Rightarrow> VkPipelineShaderStageCreateInfo" where
  "loadShader fileName stage = Some (fileName, stage)"

text \<open>
  The create-info \<open>createPipelines\<close> hands to \<open>vkCreateGraphicsPipelines\<close>. The state
  structures are locals that the create-info points to, so the assignments made to them
  after the pointers are taken are part of what the call reads. The viewport,
  multisample, dynamic and vertex input states are the same for every setting of the
  members and are left out.
\<close>

definition pipelineCI :: "VulkanExample \<Rightarrow> VkGraphicsPipelineCreateInfo" where
  "pipelineCI s =
     (let inputAssemblyState0 =
            pipelineInputAssemblyStateCreateInfo VK_PRIMITIVE_TOPOLOGY_TRIANGLE_LIST 0 False;
          rasterizationState0 =
            pipelineRasterizationStateCreateInfo VK_POLYGON_MODE_FILL (cullMode s)
              VK_FRONT_FACE_COUNTER_CLOCKWISE 0;
          blendAttachmentState0 = pipelineColorBlendAttachmentState 0xf False;
          depthStencilState0 =
            pipelineDepthStencilStateCreateInfo True True VK_COMPARE_OP_LESS_OR_EQUAL;
          tessellationState = (3 :: nat);
          blendAttachmentState =
            (if blending s
             then blendAttachmentState0
                    \<lparr>blendEnable := True,
                     colorWriteMask := VK_COLOR_COMPONENT_R_BIT OR VK_COLOR_COMPONENT_G_BIT OR
                                       VK_COLOR_COMPONENT_B_BIT OR VK_COLOR_COMPONENT_A_BIT,
                     srcColorBlendFactor := VK_BLEND_FACTOR_SRC_ALPHA,
                     dstColorBlendFactor := VK_BLEND_FACTOR_ONE_MINUS_SRC_ALPHA,
                     colorBlendOp := VK_BLEND_OP_ADD,
                     srcAlphaBlendFactor := VK_BLEND_FACTOR_ONE_MINUS_SRC_ALPHA,
                     dstAlphaBlendFactor := VK_BLEND_FACTOR_ZERO,
                     alphaBlendOp := VK_BLEND_OP_ADD\<rparr>
             else blendAttachmentState0);
          depthStencilState =
            (if blending s then depthStencilState0\<lparr>depthWriteEnable := False\<rparr>
             else depthStencilState0);
          rasterizationState1 =
            (if discard s then rasterizationState0\<lparr>rasterizerDiscardEnable := True\<rparr>
             else rasterizationState0);
          rasterizationState =
            (if wireframe s then rasterizationState1\<lparr>polygonMode := VK_POLYGON_MODE_LINE\<rparr>
             else rasterizationState1);
          shaderStages0 = resize [] (if tessellation s then 4 else 2) None;
          shaderStages1 = shaderStages0
            [0 := loadShader (shadersPath s @ ''pipelinestatistics/scene.vert.spv'')
                    VK_SHADER_STAGE_VERTEX_BIT];
          shaderStages2 = shaderStages1
            [1 := loadShader (shadersPath s @ ''pipelinestatistics/scene.frag.spv'')
                    VK_SHADER_STAGE_FRAGMENT_BIT];
          inputAssemblyState =
            (if tessellation s
             then inputAssemblyState0\<lparr>topology := VK_PRIMITIVE_TOPOLOGY_PATCH_LIST\<rparr>
             else inputAssemblyState0);
          shaderStages =
            (if tessellation s
             then shaderStages2
                    [2 := loadShader (shadersPath s @ ''pipelinestatistics/scene.tesc.spv'')
                            VK_SHADER_STAGE_TESSELLATION_CONTROL_BIT,
                     3 := loadShader (shadersPath s @ ''pipelinestatistics/scene.tese.spv'')
                            VK_SHADER_STAGE_TESSELLATION_EVALUATION_BIT]
             else shaderStages2)
      in \<lparr>pInputAssemblyState = inputAssemblyState,
          pRasterizationState = rasterizationState,
          pColorBlendState = [blendAttachmentState],
          pDepthStencilState = depthStencilState,
          pTessellationState = (if tessellation s then Some tessellationState else None),
          stageCount = length shaderStages mod 2 ^ 32,
          pStages = shaderStages\<rparr>)"

definition createPipelines :: "driver \<Rightarrow> VulkanExample \<Rightarrow> error + VulkanExample" where
  "createPipelines drv s =
     bind_result
       (if pipelineLayout s = None
        then bind_result (VK_CHECK_RESULT drv vkCreatePipelineLayout s)
               (\<lambda>s1. Inr (s1\<lparr>pipelineLayout := Some ()\<rparr>))
        else Inr s)
       (\<lambda>s1.
          let s2 = (if pipeline s1 \<noteq> None
                    then emit vkDestroyPipeline (emit vkQueueWaitIdle s1)
                    else s1)
          in bind_result (VK_CHECK_RESULT drv (vkCreateGraphicsPipelines (pipelineCI s2)) s2)
               (\<lambda>s3. Inr (s3\<lparr>pipeline := Some (pipelineCI s2)\<rparr>)))"

subsection \<open>Preparation\<close>

fun prepare_frames :: "driver \<Rightarrow> nat \<Rightarrow> VulkanExample \<Rightarrow> error + VulkanExample" where
  "prepare_frames drv 0 s = Inr s"
| "prepare_frames drv (Suc n) s =
     bind_result (VK_CHECK_RESULT drv createAndMapBuffer s) (prepare_frames drv n)"

definition prepare :: "driver \<Rightarrow> VulkanExample \<Rightarrow> error + VulkanExample" where
  "prepare drv s =
     (let s1 = s\<lparr>frameObjects := frameCount s\<rparr>
      in bind_result (prepare_frames drv (frameObjects s1) s1)
           (\<lambda>s2. bind_result (createQueryPool drv (loadAssets s2))
              (\<lambda>s3. bind_result (createDescriptors drv s3)
                 (\<lambda>s4. bind_result (createPipelines drv s4)
                    (\<lambda>s5. Inr (s5\<lparr>prepared := True\<rparr>))))))"

subsection \<open>Rendering a frame\<close>

text \<open>
  The position of grid cell \<open>(x, y)\<close>, from the expression
  \<^verbatim>\<open>glm::vec3(float(x - (gridSize / 2.0f)) * 2.5f, 0.0f, float(y - (gridSize / 2.0f)) * 2.5f)\<close>.
  The coordinates are rationals. For the grid sizes the program uses every intermediate
  value is a multiple of a quarter of small magnitude, which single precision holds
  exactly, so the rational is the value the program computes.
\<close>

definition grid_pos :: "int \<Rightarrow> int \<Rightarrow> int \<Rightarrow> vec3" where
  "grid_pos g x y =
     ((of_int x - of_int g / 2) * (5 / 2), 0, (of_int y - of_int g / 2) * (5 / 2))"

text \<open>
  The two nested iterations of \<open>render\<close>, the inner one over \<open>x\<close> and the outer one over
  \<open>y\<close>; \<open>m\<close> is the index of the selected model. The counters stay below \<open>gridSize\<close>,
  so the increments do not overflow.
\<close>

function draw_row :: "int \<Rightarrow> nat \<Rightarrow> int \<Rightarrow> int \<Rightarrow> cmd list" where
  "draw_row g m y x =
     (if x < g
      then [vkCmdPushConstants (grid_pos g x y), draw m] @ draw_row g m y (x + 1)
      else [])"
  by pat_completeness auto
termination
  by (relation "measure (\<lambda>(g, m, y, x). nat (g - x))") auto

declare draw_row.simps [simp del]

function draw_grid :: "int \<Rightarrow> nat \<Rightarrow> int \<Rightarrow> cmd list" where
  "draw_grid g m y =
     (if y < g then draw_row g m y 0 @ draw_grid g m (y + 1) else [])"
  by pat_completeness auto
termination
  by (relation "measure (\<lambda>(g, m, y). nat (g - y))") auto

declare draw_grid.simps [simp del]

text \<open>
  The commands \<open>render\<close> records between \<open>vkBeginCommandBuffer\<close> and
  \<open>vkEndCommandBuffer\<close>, in order. \<open>models.objects[models.objectIndex]\<close> is an access
  to a vector: outside its bounds the program has no defined behaviour.
\<close>

definition recordCommands :: "VulkanExample \<Rightarrow> error + cmd list" where
  "recordCommands s =
     (if 0 \<le> models_objectIndex s \<and> models_objectIndex s < int (length (models_objects s))
      then Inr ([vkCmdResetQueryPool 0 (length (pipelineStats s) mod 2 ^ 32),
                 vkCmdBeginRenderPass,
                 vkCmdSetViewport,
                 vkCmdSetScissor,
                 vkCmdBeginQuery 0 0,
                 vkCmdBindDescriptorSets,
                 vkCmdBindPipeline (pipeline s),
                 vkCmdBindPipeline (pipeline s),
                 vkCmdBindDescriptorSets,
                 bindBuffers (nat (models_objectIndex s))] @
                draw_grid (gridSize s) (nat (models_objectIndex s)) 0 @
                [vkCmdEndQuery 0,
                 UIOverlay_draw,
                 vkCmdEndRenderPass])
      else Inl OutOfRange)"

text \<open>
  The frame's own objects, \<open>frameObjects[getCurrentFrameIndex()]\<close>, are handed out by the
  framework; \<open>prepareFrame\<close> and \<open>submitFrame\<close> are its calls and appear as such.
  What a frame takes from outside the program: the framework's \<open>paused\<close> and
  \<open>camera.updated\<close>, and the counter values the device has ready for
  \<open>vkGetQueryPoolResults\<close> (none when the query has not finished).
\<close>

record frame_input =
  paused :: bool
  camera_updated :: bool
  query_results :: "64 word list"

text \<open>
  \<open>vkGetQueryPoolResults\<close> writes through \<open>pipelineStats.data()\<close>: at most \<open>dataSize\<close>
  bytes, eight per counter, over the front of the vector.
\<close>

definition write_results :: "64 word list \<Rightarrow> nat \<Rightarrow> 64 word list \<Rightarrow> 64 word list" where
  "write_results stats dataSize results =
     (let n = min (dataSize div 8) (length results)
      in take n results @ drop n stats)"

definition render :: "driver \<Rightarrow> frame_input \<Rightarrow> VulkanExample \<Rightarrow> error + VulkanExample" where
  "render drv fi s =
     (let s1 = emit prepareFrame s;
          count = length (pipelineStats s1) mod 2 ^ 32;
          s2 = emit (vkGetQueryPoolResults 0 1 (count * 8) 8 VK_QUERY_RESULT_64_BIT)
                 (s1\<lparr>pipelineStats :=
                       write_results (pipelineStats s1) (count * 8) (query_results fi)\<rparr>);
          s3 = (if \<not> paused fi \<or> camera_updated fi then emit memcpy_uniformData s2 else s2)
      in bind_result (VK_CHECK_RESULT drv vkBeginCommandBuffer s3)
           (\<lambda>s4. bind_result (recordCommands s4)
              (\<lambda>cmds. bind_result (VK_CHECK_RESULT drv vkEndCommandBuffer s4)
                 (\<lambda>s5. Inr (emit (submitFrame cmds) s5)))))"

subsection \<open>The overlay\<close>

text \<open>
  What the user does to the overlay during one update: whether each header is expanded,
  the entry picked in a combo box, the position the slider is dragged to, and whether a
  check box is clicked. \<open>None\<close> is a widget left alone.
\<close>

record ui_input =
  header_Settings :: bool
  comboBox_Object_type :: "int option"
  sliderInt_Grid_size :: "int option"
  comboBox_Cull_mode :: "int option"
  checkBox_Blending :: bool
  checkBox_Wireframe :: bool
  checkBox_Tessellation :: bool
  checkBox_Discard :: bool
  header_Pipeline_statistics :: bool

text \<open>
  Modelled from the spec: the widgets of \<open>vks::UIOverlay\<close> belong to the example
  framework, which the spec counts as external and which is not among the sources. The
  spec has an overlay with boolean and enum toggles. Each widget returns whether the
  user changed it during this update, together with the value it leaves in the
  variable: a check box flips its boolean when clicked, a combo box stores the index of
  the entry picked from its list, a slider stores the position it is dragged to, kept
  within its two bounds.
\<close>

definition checkBox :: "bool \<Rightarrow> bool \<Rightarrow> bool \<times> bool" where
  "checkBox v clicked = (clicked, if clicked then \<not> v else v)"

definition comboBox :: "int \<Rightarrow> string list \<Rightarrow> int option \<Rightarrow> bool \<times> int" where
  "comboBox itemindex items picked =
     (case picked of
        None \<Rightarrow> (False, itemindex)
      | Some i \<Rightarrow> if 0 \<le> i \<and> i < int (length items) then (True, i) else (False, itemindex))"

definition sliderInt :: "int \<Rightarrow> int \<Rightarrow> int \<Rightarrow> int option \<Rightarrow> bool \<times> int" where
  "sliderInt v lo hi dragged =
     (case dragged of
        None \<Rightarrow> (False, v)
      | Some p \<Rightarrow> (True, max lo (min hi p)))"

text \<open>
  The body of \<^verbatim>\<open>if (overlay->header("Settings"))\<close>: the new value of \<open>recreatePipelines\<close>
  and the state after the widgets have run.
\<close>

definition OnUpdateUIOverlay_settings :: "ui_input \<Rightarrow> VulkanExample \<Rightarrow> bool \<times> VulkanExample" where
  "OnUpdateUIOverlay_settings ui s =
     (let recreatePipelines0 = False;
          objectType = comboBox (models_objectIndex s) (models_names s) (comboBox_Object_type ui);
          s1 = emit (overlay_comboBox ''Object type'') (s\<lparr>models_objectIndex := snd objectType\<rparr>);
          grid = sliderInt (gridSize s1) 1 10 (sliderInt_Grid_size ui);
          s2 = emit (overlay_sliderInt ''Grid size'' 1 10) (s1\<lparr>gridSize := snd grid\<rparr>);
          cullModeNames = [''None'', ''Front'', ''Back'', ''Back and front''];
          cull = comboBox (cullMode s2) cullModeNames (comboBox_Cull_mode ui);
          s3 = emit (overlay_comboBox ''Cull mode'') (s2\<lparr>cullMode := snd cull\<rparr>);
          recreatePipelines1 = (if fst cull then True else recreatePipelines0);
          blend = checkBox (blending s3) (checkBox_Blending ui);
          s4 = emit (overlay_checkBox ''Blending'') (s3\<lparr>blending := snd blend\<rparr>);
          recreatePipelines2 = (if fst blend then True else recreatePipelines1);
          wire = checkBox (wireframe s4) (checkBox_Wireframe ui);
          s5 = (if fillModeNonSolid (deviceFeatures s4)
                then emit (overlay_checkBox ''Wireframe'') (s4\<lparr>wireframe := snd wire\<rparr>)
                else s4);
          recreatePipelines3 =
            (if fillModeNonSolid (deviceFeatures s4) \<and> fst wire then True else recreatePipelines2);
          tess = checkBox (tessellation s5) (checkBox_Tessellation ui);
          s6 = (if tessellationShader (deviceFeatures s5)
                then emit (overlay_checkBox ''Tessellation'') (s5\<lparr>tessellation := snd tess\<rparr>)
                else s5);
          recreatePipelines4 =
            (if tessellationShader (deviceFeatures s5) \<and> fst tess then True else recreatePipelines3);
          disc = checkBox (discard s6) (checkBox_Discard ui);
          s7 = emit (overlay_checkBox ''Discard'') (s6\<lparr>discard := snd disc\<rparr>);
          recreatePipelines5 = (if fst disc then True else recreatePipelines4)
      in (recreatePipelines5, s7))"

text \<open>
  The loop that prints the counters. \<open>pipelineStatNames[i]\<close> is an access to a vector:
  outside its bounds the program has no defined behaviour.
\<close>

function OnUpdateUIOverlay_statistics :: "nat \<Rightarrow> VulkanExample \<Rightarrow> error + VulkanExample" where
  "OnUpdateUIOverlay_statistics i s =
     (if i < length (pipelineStats s)
      then if i < length (pipelineStatNames s)
           then OnUpdateUIOverlay_statistics (Suc i)
                  (emit (overlay_text (pipelineStatNames s ! i @ '': %d'') (pipelineStats s ! i)) s)
           else Inl OutOfRange
      else Inr s)"
  by pat_completeness auto
termination
  by (relation "measure (\<lambda>(i, s). length (pipelineStats s) - i)") (auto simp: emit_def)

declare OnUpdateUIOverlay_statistics.simps [simp del]

definition OnUpdateUIOverlay :: "driver \<Rightarrow> ui_input \<Rightarrow> VulkanExample \<Rightarrow> error + VulkanExample" where
  "OnUpdateUIOverlay drv ui s =
     (let s0 = emit (overlay_header ''Settings'') s;
          settings = (if header_Settings ui then OnUpdateUIOverlay_settings ui s0 else (False, s0));
          recreatePipelines = fst settings;
          s1 = snd settings
      in bind_result
           (if pipelineStats s1 \<noteq> []
            then let s2 = emit (overlay_header ''Pipeline statistics'') s1
                 in if header_Pipeline_statistics ui then OnUpdateUIOverlay_statistics 0 s2
                    else Inr s2
            else Inr s1)
           (\<lambda>s3. if recreatePipelines then createPipelines drv s3 else Inr s3))"

subsection \<open>The program\<close>

text \<open>
  The framework constructs the example, asks it for the features to enable while it
  creates the device, calls \<open>prepare\<close>, and then calls \<open>render\<close> for every frame and
  \<open>OnUpdateUIOverlay\<close> whenever it rebuilds the overlay.
\<close>

definition start ::
    "driver \<Rightarrow> VkPhysicalDeviceFeatures \<Rightarrow> nat \<Rightarrow> string \<Rightarrow> string \<Rightarrow> error + VulkanExample" where
  "start drv features frames assets shaders =
     bind_result (getEnabledFeatures (VulkanExample_new features frames assets shaders))
       (prepare drv)"

datatype action =
    Render driver frame_input
  | UpdateUIOverlay driver ui_input

fun step :: "action \<Rightarrow> VulkanExample \<Rightarrow> error + VulkanExample" where
  "step (Render drv fi) s = render drv fi s"
| "step (UpdateUIOverlay drv ui) s = OnUpdateUIOverlay drv ui s"

fun run :: "action list \<Rightarrow> VulkanExample \<Rightarrow> error + VulkanExample" where
  "run [] s = Inr s"
| "run (a # as) s = bind_result (step a s) (run as)"

definition program ::
    "driver \<Rightarrow> VkPhysicalDeviceFeatures \<Rightarrow> nat \<Rightarrow> string \<Rightarrow> string \<Rightarrow> action list
       \<Rightarrow> error + VulkanExample" where
  "program drv features frames assets shaders acts =
     bind_result (start drv features frames assets shaders) (run acts)"

section \<open>Observing a run\<close>

text \<open>The calls \<open>createPipelines\<close> makes when every one of them succeeds.\<close>

definition createPipelines_calls :: "VulkanExample \<Rightarrow> call list" where
  "createPipelines_calls s =
     (if pipelineLayout s = None then [vkCreatePipelineLayout] else []) @
     (if pipeline s \<noteq> None then [vkQueueWaitIdle, vkDestroyPipeline] else []) @
     [vkCreateGraphicsPipelines (pipelineCI s)]"

text \<open>The calls one frame makes, given the commands it records.\<close>

definition render_calls :: "frame_input \<Rightarrow> VulkanExample \<Rightarrow> cmd list \<Rightarrow> call list" where
  "render_calls fi s cmds =
     [prepareFrame,
      vkGetQueryPoolResults 0 1 (length (pipelineStats s) mod 2 ^ 32 * 8) 8 VK_QUERY_RESULT_64_BIT] @
     (if \<not> paused fi \<or> camera_updated fi then [memcpy_uniformData] else []) @
     [vkBeginCommandBuffer, vkEndCommandBuffer, submitFrame cmds]"

text \<open>
  One overlay update, summarised: the widgets it shows, the members it leaves behind,
  and whether it asks for new pipelines. The lemmas \<open>settings_shape\<close> and
  \<open>update_shape\<close> below prove that \<open>OnUpdateUIOverlay\<close> does exactly this.
\<close>

definition settings_widgets :: "VulkanExample \<Rightarrow> call list" where
  "settings_widgets s =
     [overlay_comboBox ''Object type'', overlay_sliderInt ''Grid size'' 1 10,
      overlay_comboBox ''Cull mode'', overlay_checkBox ''Blending''] @
     (if fillModeNonSolid (deviceFeatures s) then [overlay_checkBox ''Wireframe''] else []) @
     (if tessellationShader (deviceFeatures s) then [overlay_checkBox ''Tessellation''] else []) @
     [overlay_checkBox ''Discard'']"

definition statistics_widgets :: "ui_input \<Rightarrow> VulkanExample \<Rightarrow> call list" where
  "statistics_widgets ui s =
     (if pipelineStats s \<noteq> []
      then overlay_header ''Pipeline statistics'' #
           (if header_Pipeline_statistics ui
            then map (\<lambda>j. overlay_text (pipelineStatNames s ! j @ '': %d'') (pipelineStats s ! j))
                   [0..<length (pipelineStats s)]
            else [])
      else [])"

definition overlay_widgets :: "ui_input \<Rightarrow> VulkanExample \<Rightarrow> call list" where
  "overlay_widgets ui s =
     overlay_header ''Settings'' # (if header_Settings ui then settings_widgets s else []) @
     statistics_widgets ui s"

definition settings_applied :: "ui_input \<Rightarrow> VulkanExample \<Rightarrow> VulkanExample" where
  "settings_applied ui s =
     (if header_Settings ui
      then s\<lparr>models_objectIndex :=
               snd (comboBox (models_objectIndex s) (models_names s) (comboBox_Object_type ui)),
             gridSize := snd (sliderInt (gridSize s) 1 10 (sliderInt_Grid_size ui)),
             cullMode := snd (comboBox (cullMode s) [''None'', ''Front'', ''Back'', ''Back and front'']
                                (comboBox_Cull_mode ui)),
             blending := (blending s \<noteq> checkBox_Blending ui),
             wireframe :=
               (wireframe s \<noteq> (fillModeNonSolid (deviceFeatures s) \<and> checkBox_Wireframe ui)),
             tessellation :=
               (tessellation s \<noteq>
                  (tessellationShader (deviceFeatures s) \<and> checkBox_Tessellation ui)),
             discard := (discard s \<noteq> checkBox_Discard ui)\<rparr>
      else s)"

definition recreate_requested :: "ui_input \<Rightarrow> VulkanExample \<Rightarrow> bool" where
  "recreate_requested ui s =
     (header_Settings ui \<and>
      (fst (comboBox (cullMode s) [''None'', ''Front'', ''Back'', ''Back and front'']
              (comboBox_Cull_mode ui)) \<or>
       checkBox_Blending ui \<or>
       (fillModeNonSolid (deviceFeatures s) \<and> checkBox_Wireframe ui) \<or>
       (tessellationShader (deviceFeatures s) \<and> checkBox_Tessellation ui) \<or>
       checkBox_Discard ui))"

text \<open>Kinds of commands and calls.\<close>

fun is_draw :: "cmd \<Rightarrow> bool" where
  "is_draw (draw m) = True"
| "is_draw c = False"

fun is_bind :: "cmd \<Rightarrow> bool" where
  "is_bind vkCmdBindDescriptorSets = True"
| "is_bind (vkCmdBindPipeline p) = True"
| "is_bind (bindBuffers m) = True"
| "is_bind c = False"

fun is_query_cmd :: "cmd \<Rightarrow> bool" where
  "is_query_cmd (vkCmdBeginQuery q f) = True"
| "is_query_cmd (vkCmdEndQuery q) = True"
| "is_query_cmd c = False"

fun is_grid_cmd :: "cmd \<Rightarrow> bool" where
  "is_grid_cmd (vkCmdPushConstants p) = True"
| "is_grid_cmd (draw m) = True"
| "is_grid_cmd c = False"

fun is_readback_or_submit :: "call \<Rightarrow> bool" where
  "is_readback_or_submit (vkGetQueryPoolResults a b c d e) = True"
| "is_readback_or_submit (submitFrame cmds) = True"
| "is_readback_or_submit c = False"

fun is_pipeline_creation :: "call \<Rightarrow> bool" where
  "is_pipeline_creation (vkCreateGraphicsPipelines ci) = True"
| "is_pipeline_creation c = False"

fun is_overlay_text :: "call \<Rightarrow> bool" where
  "is_overlay_text (overlay_text caption v) = True"
| "is_overlay_text c = False"

fun is_Render :: "action \<Rightarrow> bool" where
  "is_Render (Render drv fi) = True"
| "is_Render a = False"

text \<open>The command buffers handed to \<open>submitFrame\<close>, oldest first.\<close>

fun submitted :: "call list \<Rightarrow> cmd list list" where
  "submitted [] = []"
| "submitted (submitFrame cmds # cs) = cmds # submitted cs"
| "submitted (c # cs) = submitted cs"

text \<open>The create-infos handed to \<open>vkCreateGraphicsPipelines\<close>, oldest first.\<close>

fun pipelines_created :: "call list \<Rightarrow> VkGraphicsPipelineCreateInfo list" where
  "pipelines_created [] = []"
| "pipelines_created (vkCreateGraphicsPipelines ci # cs) = ci # pipelines_created cs"
| "pipelines_created (c # cs) = pipelines_created cs"

text \<open>The positions pushed in a command buffer, in order.\<close>

fun pushed_positions :: "cmd list \<Rightarrow> vec3 list" where
  "pushed_positions [] = []"
| "pushed_positions (vkCmdPushConstants p # cs) = p # pushed_positions cs"
| "pushed_positions (c # cs) = pushed_positions cs"

text \<open>
  \<open>recorded_before a b cmds\<close>: command \<open>a\<close> is in the buffer and \<open>b\<close> is recorded
  somewhere after its first occurrence.
\<close>

definition recorded_before :: "cmd \<Rightarrow> cmd \<Rightarrow> cmd list \<Rightarrow> bool" where
  "recorded_before a b cmds = (b \<in> set (drop 1 (dropWhile (\<lambda>c. c \<noteq> a) cmds)))"

text \<open>A set of positions is centred on the origin when its coordinates sum to zero.\<close>

definition centred_on_origin :: "vec3 list \<Rightarrow> bool" where
  "centred_on_origin ps =
     (sum_list (map fst ps) = 0 \<and> sum_list (map (fst \<circ> snd) ps) = 0 \<and>
      sum_list (map (snd \<circ> snd) ps) = 0)"

text \<open>A pipeline that needs the tessellation feature of the device.\<close>

definition uses_tessellation :: "VkGraphicsPipelineCreateInfo \<Rightarrow> bool" where
  "uses_tessellation ci =
     (topology (pInputAssemblyState ci) = VK_PRIMITIVE_TOPOLOGY_PATCH_LIST \<or>
      pTessellationState ci \<noteq> None \<or>
      (\<exists>st \<in> set (pStages ci). \<exists>f. st = Some (f, VK_SHADER_STAGE_TESSELLATION_CONTROL_BIT) \<or>
                                      st = Some (f, VK_SHADER_STAGE_TESSELLATION_EVALUATION_BIT)))"

text \<open>
  What holds of the members once \<open>prepare\<close> has returned, and from then on: the lemmas
  \<open>start_running\<close>, \<open>render_running\<close> and \<open>update_running\<close> below prove it.
\<close>

definition running :: "VulkanExample \<Rightarrow> bool" where
  "running s \<longleftrightarrow>
     pipelineStatisticsQuery (deviceFeatures s) \<and>
     length (pipelineStats s) = (if tessellationShader (deviceFeatures s) then 8 else 6) \<and>
     length (pipelineStatNames s) = length (pipelineStats s) \<and>
     queryPool s = Some (queryPoolInfo s) \<and>
     (wireframe s \<longrightarrow> fillModeNonSolid (deviceFeatures s)) \<and>
     (tessellation s \<longrightarrow> tessellationShader (deviceFeatures s)) \<and>
     1 \<le> gridSize s \<and> gridSize s \<le> 10 \<and>
     0 \<le> models_objectIndex s \<and> models_objectIndex s < 4 \<and>
     length (models_objects s) = 4 \<and> length (models_names s) = 4 \<and>
     pipeline s = Some (pipelineCI s) \<and> pipelineLayout s = Some ()"

subsection \<open>Inputs for examples\<close>

definition driver_ok :: driver where
  "driver_ok c = VK_SUCCESS"

definition features_all :: VkPhysicalDeviceFeatures where
  "features_all =
     \<lparr>pipelineStatisticsQuery = True, fillModeNonSolid = True, tessellationShader = True\<rparr>"

definition features_statistics_only :: VkPhysicalDeviceFeatures where
  "features_statistics_only =
     \<lparr>pipelineStatisticsQuery = True, fillModeNonSolid = False, tessellationShader = False\<rparr>"

definition features_none :: VkPhysicalDeviceFeatures where
  "features_none =
     \<lparr>pipelineStatisticsQuery = False, fillModeNonSolid = False, tessellationShader = False\<rparr>"

definition frame_idle :: frame_input where
  "frame_idle = \<lparr>paused = False, camera_updated = False, query_results = []\<rparr>"

text \<open>An overlay update in which both headers are expanded and no widget is touched.\<close>

definition ui_idle :: ui_input where
  "ui_idle =
     \<lparr>header_Settings = True, comboBox_Object_type = None, sliderInt_Grid_size = None,
      comboBox_Cull_mode = None, checkBox_Blending = False, checkBox_Wireframe = False,
      checkBox_Tessellation = False, checkBox_Discard = False,
      header_Pipeline_statistics = True\<rparr>"

text \<open>The state after \<open>prepare\<close> on a device with every feature and a willing driver.\<close>

definition example_state :: VulkanExample where
  "example_state = projr (start driver_ok features_all 2 [] [])"

definition ui_grid_1 :: ui_input where
  "ui_grid_1 = ui_idle\<lparr>sliderInt_Grid_size := Some 1\<rparr>"

definition ui_statistics_collapsed :: ui_input where
  "ui_statistics_collapsed = ui_idle\<lparr>header_Pipeline_statistics := False\<rparr>"

definition ui_blending_clicked :: ui_input where
  "ui_blending_clicked = ui_idle\<lparr>checkBox_Blending := True\<rparr>"

definition ui_object_and_grid :: ui_input where
  "ui_object_and_grid = ui_idle\<lparr>comboBox_Object_type := Some 1, sliderInt_Grid_size := Some 7\<rparr>"

section \<open>Facts about the operations\<close>

lemma bind_result_simps [simp]:
  "bind_result (Inl e) f = Inl e"
  "bind_result (Inr x) f = f x"
  by (simp_all add: bind_result_def)

lemma bind_result_eq_Inr:
  "bind_result m f = Inr y \<longleftrightarrow> (\<exists>x. m = Inr x \<and> f x = Inr y)"
  by (cases m) simp_all

lemma bind_result_eq_Inl:
  "bind_result m f = Inl e \<longleftrightarrow> m = Inl e \<or> (\<exists>x. m = Inr x \<and> f x = Inl e)"
  by (cases m) simp_all

lemma VK_CHECK_RESULT_eq_Inr:
  "VK_CHECK_RESULT drv c s = Inr s' \<longleftrightarrow> drv c = VK_SUCCESS \<and> s' = emit c s"
  by (auto simp: VK_CHECK_RESULT_def)

lemma VK_CHECK_RESULT_eq_Inl:
  "VK_CHECK_RESULT drv c s = Inl e \<longleftrightarrow> drv c \<noteq> VK_SUCCESS \<and> e = CheckResult (drv c)"
  by (auto simp: VK_CHECK_RESULT_def)

lemma length_resize [simp]: "length (resize xs n d) = n"
  by (simp add: resize_def)

lemma queryPoolInfo_cong:
  "deviceFeatures s1 = deviceFeatures s2 \<Longrightarrow> queryPoolInfo s1 = queryPoolInfo s2"
  by (simp add: queryPoolInfo_def)

lemma pipelineCI_cong:
  "cullMode s1 = cullMode s2 \<Longrightarrow> blending s1 = blending s2 \<Longrightarrow> discard s1 = discard s2 \<Longrightarrow>
   wireframe s1 = wireframe s2 \<Longrightarrow> tessellation s1 = tessellation s2 \<Longrightarrow>
   shadersPath s1 = shadersPath s2 \<Longrightarrow> pipelineCI s1 = pipelineCI s2"
  by (simp add: pipelineCI_def)

subsection \<open>Per-frame buffers\<close>

lemma prepare_frames_eq_Inr:
  "prepare_frames drv n s = Inr s' \<Longrightarrow> s' = s\<lparr>calls := calls s @ replicate n createAndMapBuffer\<rparr>"
proof (induction n arbitrary: s)
  case 0
  then show ?case by simp
next
  case (Suc n)
  from Suc.prems obtain s1 where s1: "s1 = emit createAndMapBuffer s"
    and r: "prepare_frames drv n s1 = Inr s'"
    by (auto simp: bind_result_eq_Inr VK_CHECK_RESULT_eq_Inr)
  from Suc.IH [OF r] show ?case
    by (simp add: s1 emit_def replicate_append_same)
qed

lemma prepare_frames_Inl:
  "prepare_frames drv n s = Inl e \<Longrightarrow> \<exists>r. e = CheckResult r"
  by (induction n arbitrary: s)
     (auto simp: bind_result_eq_Inl VK_CHECK_RESULT_eq_Inl VK_CHECK_RESULT_eq_Inr)

subsection \<open>Loading the models\<close>

lemma loadAssets_loop_shape:
  "\<exists>objs new. loadAssets_loop fs i s = s\<lparr>models_objects := objs, calls := calls s @ new\<rparr> \<and>
     length objs = length (models_objects s) \<and> (\<forall>c \<in> set new. \<exists>p. c = loadFromFile p)"
proof (induction fs i s rule: loadAssets_loop.induct)
  case (1 filenames i s)
  show ?case
  proof (cases "i < length filenames")
    case True
    let ?p = "assetPath s @ ''models/'' @ filenames ! i"
    let ?s1 = "emit (loadFromFile ?p) (s\<lparr>models_objects := (models_objects s)[i := ?p]\<rparr>)"
    from "1.IH" [OF True] obtain objs new where
      eq: "loadAssets_loop filenames (Suc i) ?s1 = ?s1\<lparr>models_objects := objs, calls := calls ?s1 @ new\<rparr>"
      and len: "length objs = length (models_objects ?s1)"
      and new: "\<forall>c \<in> set new. \<exists>p. c = loadFromFile p"
      by blast
    have "loadAssets_loop filenames i s = loadAssets_loop filenames (Suc i) ?s1"
      using True by (subst loadAssets_loop.simps) simp
    also have "\<dots> = s\<lparr>models_objects := objs, calls := calls s @ (loadFromFile ?p # new)\<rparr>"
      unfolding eq by (simp add: emit_def)
    finally show ?thesis
      using len new by (intro exI [of _ objs] exI [of _ "loadFromFile ?p # new"]) (auto simp: emit_def)
  next
    case False
    then have "loadAssets_loop filenames i s = s"
      by (subst loadAssets_loop.simps) simp
    then show ?thesis
      by (intro exI [of _ "models_objects s"] exI [of _ "[]"]) simp
  qed
qed

lemma loadAssets_shape:
  "\<exists>objs new. loadAssets s =
       s\<lparr>models_names := [''Sphere'', ''Teapot'', ''Torusknot'', ''Venus''],
         models_objects := objs, calls := calls s @ new\<rparr> \<and>
     length objs = 4 \<and> (\<forall>c \<in> set new. \<exists>p. c = loadFromFile p)"
proof -
  let ?fs = "[''sphere.gltf'', ''teapot.gltf'', ''torusknot.gltf'', ''venus.gltf'']"
  let ?s2 = "s\<lparr>models_names := [''Sphere'', ''Teapot'', ''Torusknot'', ''Venus''],
               models_objects := resize (models_objects s) (length ?fs) []\<rparr>"
  obtain objs new where
    eq: "loadAssets_loop ?fs 0 ?s2 = ?s2\<lparr>models_objects := objs, calls := calls ?s2 @ new\<rparr>"
    and len: "length objs = length (models_objects ?s2)"
    and new: "\<forall>c \<in> set new. \<exists>p. c = loadFromFile p"
    using loadAssets_loop_shape [of ?fs 0 ?s2] by blast
  have "loadAssets s = loadAssets_loop ?fs 0 ?s2"
    by (simp add: loadAssets_def Let_def)
  with eq len new show ?thesis
    by (intro exI [of _ objs] exI [of _ new]) simp
qed

subsection \<open>Descriptors\<close>

lemma createDescriptors_sets_shape:
  "createDescriptors_sets drv n s = Inr s' \<Longrightarrow>
     s' = s\<lparr>calls := calls s @ concat (replicate n [vkAllocateDescriptorSets, vkUpdateDescriptorSets])\<rparr>"
proof (induction n arbitrary: s)
  case 0
  then show ?case by simp
next
  case (Suc n)
  let ?s1 = "emit vkUpdateDescriptorSets (emit vkAllocateDescriptorSets s)"
  from Suc.prems have r: "createDescriptors_sets drv n ?s1 = Inr s'"
    by (auto simp: bind_result_eq_Inr VK_CHECK_RESULT_eq_Inr)
  from Suc.IH [OF r] show ?case
    by (simp add: emit_def)
qed

lemma createDescriptors_sets_Inl:
  "createDescriptors_sets drv n s = Inl e \<Longrightarrow> \<exists>r. e = CheckResult r"
  by (induction n arbitrary: s)
     (auto simp: bind_result_eq_Inl VK_CHECK_RESULT_eq_Inl VK_CHECK_RESULT_eq_Inr)

lemma createDescriptors_shape:
  "createDescriptors drv s = Inr s' \<Longrightarrow>
     s' = s\<lparr>calls := calls s @ [vkCreateDescriptorPool (3 * frameCount s), vkCreateDescriptorSetLayout] @
            concat (replicate (frameObjects s) [vkAllocateDescriptorSets, vkUpdateDescriptorSets])\<rparr>"
  by (auto simp: createDescriptors_def bind_result_eq_Inr VK_CHECK_RESULT_eq_Inr emit_def
      dest!: createDescriptors_sets_shape)

lemma createDescriptors_Inl:
  "createDescriptors drv s = Inl e \<Longrightarrow> \<exists>r. e = CheckResult r"
  by (auto simp: createDescriptors_def bind_result_eq_Inl VK_CHECK_RESULT_eq_Inl
      VK_CHECK_RESULT_eq_Inr dest: createDescriptors_sets_Inl)

subsection \<open>The query pool\<close>

lemma createQueryPool_shape:
  assumes "createQueryPool drv s = Inr s'"
  shows "\<exists>names stats. s' = s\<lparr>pipelineStatNames := names, pipelineStats := stats,
                        calls := calls s @ [vkCreateQueryPool (queryPoolInfo s)],
                        queryPool := Some (queryPoolInfo s)\<rparr> \<and>
        length names = (if tessellationShader (deviceFeatures s) then 8 else 6) \<and>
        length stats = length names"
proof -
  define names where "names =
     [''Input assembly vertex count        '',
      ''Input assembly primitives count    '',
      ''Vertex shader invocations          '',
      ''Clipping stage primitives processed'',
      ''Clipping stage primitives output    '',
      ''Fragment shader invocations        ''] @
     (if tessellationShader (deviceFeatures s)
      then [''Tess. control shader patches       ''] @ [''Tess. eval. shader invocations     '']
      else [])"
  define stats where "stats = resize (pipelineStats s) (length names) 0"
  define s2 where "s2 = s\<lparr>pipelineStatNames := names, pipelineStats := stats\<rparr>"
  have q: "queryPoolInfo s2 = queryPoolInfo s"
    by (rule queryPoolInfo_cong) (simp add: s2_def)
  have "createQueryPool drv s =
          bind_result (VK_CHECK_RESULT drv (vkCreateQueryPool (queryPoolInfo s2)) s2)
            (\<lambda>s3. Inr (s3\<lparr>queryPool := Some (queryPoolInfo s2)\<rparr>))"
    unfolding createQueryPool_def Let_def s2_def stats_def names_def by simp
  with assms have "s' = (emit (vkCreateQueryPool (queryPoolInfo s)) s2)\<lparr>queryPool := Some (queryPoolInfo s)\<rparr>"
    unfolding q by (auto simp: bind_result_eq_Inr VK_CHECK_RESULT_eq_Inr)
  then have "s' = s\<lparr>pipelineStatNames := names, pipelineStats := stats,
                        calls := calls s @ [vkCreateQueryPool (queryPoolInfo s)],
                        queryPool := Some (queryPoolInfo s)\<rparr>"
    by (simp add: emit_def s2_def)
  moreover have "length names = (if tessellationShader (deviceFeatures s) then 8 else 6)"
    by (simp add: names_def)
  moreover have "length stats = length names"
    by (simp add: stats_def)
  ultimately show ?thesis by blast
qed

lemma createQueryPool_Inl:
  "createQueryPool drv s = Inl e \<Longrightarrow> \<exists>r. e = CheckResult r"
  by (auto simp: createQueryPool_def Let_def bind_result_eq_Inl VK_CHECK_RESULT_eq_Inl
      VK_CHECK_RESULT_eq_Inr)

subsection \<open>The pipeline\<close>

lemma pipelineCI_upd [simp]:
  "pipelineCI (s\<lparr>calls := c\<rparr>) = pipelineCI s"
  "pipelineCI (s\<lparr>pipelineLayout := l\<rparr>) = pipelineCI s"
  "pipelineCI (s\<lparr>pipeline := p\<rparr>) = pipelineCI s"
  by (rule pipelineCI_cong; simp)+

lemma createPipelines_shape:
  assumes "createPipelines drv s = Inr s'"
  shows "s' = s\<lparr>pipelineLayout := Some (), calls := calls s @ createPipelines_calls s,
            pipeline := Some (pipelineCI s)\<rparr>"
proof -
  define s1 where "s1 = (if pipelineLayout s = None
      then (emit vkCreatePipelineLayout s)\<lparr>pipelineLayout := Some ()\<rparr> else s)"
  define s2 where "s2 = (if pipeline s1 \<noteq> None
                    then emit vkDestroyPipeline (emit vkQueueWaitIdle s1) else s1)"
  have ci: "pipelineCI s2 = pipelineCI s"
    by (simp add: s2_def s1_def emit_def)
  from assms have "s' = (emit (vkCreateGraphicsPipelines (pipelineCI s2)) s2)\<lparr>pipeline := Some (pipelineCI s2)\<rparr>"
    unfolding createPipelines_def Let_def s2_def s1_def
    by (auto simp: bind_result_eq_Inr VK_CHECK_RESULT_eq_Inr split: if_splits)
  then show ?thesis
    unfolding ci by (simp add: s2_def s1_def emit_def createPipelines_calls_def)
qed

lemma createPipelines_Inl:
  "createPipelines drv s = Inl e \<Longrightarrow> \<exists>r. e = CheckResult r"
  by (auto simp: createPipelines_def Let_def bind_result_eq_Inl VK_CHECK_RESULT_eq_Inl
      VK_CHECK_RESULT_eq_Inr split: if_splits)

subsection \<open>The grid\<close>

lemma draw_row_eq:
  "draw_row g m y x =
     concat (map (\<lambda>x'. [vkCmdPushConstants (grid_pos g x' y), draw m]) [x..g - 1])"
proof (induction g m y x rule: draw_row.induct)
  case (1 g m y x)
  show ?case
  proof (cases "x < g")
    case True
    then have u: "[x..g - 1] = x # [x + 1..g - 1]"
      by (simp add: upto_rec1)
    show ?thesis
      using True "1.IH" [OF True] by (subst draw_row.simps) (simp add: u)
  next
    case False
    then show ?thesis
      by (subst draw_row.simps) simp
  qed
qed

lemma draw_grid_eq:
  "draw_grid g m y = concat (map (\<lambda>y'. draw_row g m y' 0) [y..g - 1])"
proof (induction g m y rule: draw_grid.induct)
  case (1 g m y)
  show ?case
  proof (cases "y < g")
    case True
    then have u: "[y..g - 1] = y # [y + 1..g - 1]"
      by (simp add: upto_rec1)
    show ?thesis
      using True "1.IH" [OF True] by (subst draw_grid.simps) (simp add: u)
  next
    case False
    then show ?thesis
      by (subst draw_grid.simps) simp
  qed
qed

lemma filter_is_draw_row:
  "length (filter is_draw (draw_row g m y x)) = nat (g - x)"
  by (simp add: draw_row_eq filter_concat comp_def length_concat sum_list_triv)

lemma draw_row_grid_cmds: "\<forall>c \<in> set (draw_row g m y x). is_grid_cmd c"
  by (auto simp: draw_row_eq)

lemma draw_grid_grid_cmds: "\<forall>c \<in> set (draw_grid g m y). is_grid_cmd c"
  using draw_row_grid_cmds by (fastforce simp: draw_grid_eq)

lemma filter_is_draw_grid:
  "length (filter is_draw (draw_grid g m y)) = nat (g - y) * nat g"
  by (simp add: draw_grid_eq filter_concat comp_def length_concat filter_is_draw_row
      sum_list_triv)

lemma length_write_results:
  "n \<le> length stats * 8 \<Longrightarrow> length (write_results stats n rs) = length stats"
  by (auto simp: write_results_def Let_def)

lemma length_write_results_count [simp]:
  "length (write_results stats (length stats mod k * 8) rs) = length stats"
proof -
  have "length stats mod k \<le> length stats"
    by (rule mod_less_eq_dividend)
  then show ?thesis
    by (intro length_write_results) simp
qed

lemma recordCommands_cong:
  "models_objectIndex s1 = models_objectIndex s2 \<Longrightarrow> models_objects s1 = models_objects s2 \<Longrightarrow>
   length (pipelineStats s1) = length (pipelineStats s2) \<Longrightarrow> pipeline s1 = pipeline s2 \<Longrightarrow>
   gridSize s1 = gridSize s2 \<Longrightarrow> recordCommands s1 = recordCommands s2"
  by (simp add: recordCommands_def)

lemma render_shape:
  assumes "render drv fi s = Inr s'"
  shows "\<exists>cmds. recordCommands s = Inr cmds \<and>
           s' = s\<lparr>pipelineStats :=
                    write_results (pipelineStats s) (length (pipelineStats s) mod 2 ^ 32 * 8)
                      (query_results fi),
                  calls := calls s @ render_calls fi s cmds\<rparr>"
proof -
  define s3 where "s3 =
    (let s1 = emit prepareFrame s;
         count = length (pipelineStats s1) mod 2 ^ 32;
         s2 = emit (vkGetQueryPoolResults 0 1 (count * 8) 8 VK_QUERY_RESULT_64_BIT)
                 (s1\<lparr>pipelineStats :=
                       write_results (pipelineStats s1) (count * 8) (query_results fi)\<rparr>)
     in if \<not> paused fi \<or> camera_updated fi then emit memcpy_uniformData s2 else s2)"
  have r: "render drv fi s =
      bind_result (VK_CHECK_RESULT drv vkBeginCommandBuffer s3)
           (\<lambda>s4. bind_result (recordCommands s4)
              (\<lambda>cmds. bind_result (VK_CHECK_RESULT drv vkEndCommandBuffer s4)
                 (\<lambda>s5. Inr (emit (submitFrame cmds) s5))))"
    by (simp add: render_def s3_def Let_def)
  let ?s4 = "emit vkBeginCommandBuffer s3"
  from assms obtain cmds where c: "recordCommands ?s4 = Inr cmds"
    and s': "s' = emit (submitFrame cmds) (emit vkEndCommandBuffer ?s4)"
    unfolding r by (auto simp: bind_result_eq_Inr VK_CHECK_RESULT_eq_Inr)
  have "recordCommands ?s4 = recordCommands s"
    by (rule recordCommands_cong) (simp_all add: s3_def Let_def emit_def)
  with c have "recordCommands s = Inr cmds" by simp
  moreover have "s' = s\<lparr>pipelineStats :=
                    write_results (pipelineStats s) (length (pipelineStats s) mod 2 ^ 32 * 8)
                      (query_results fi),
                  calls := calls s @ render_calls fi s cmds\<rparr>"
    unfolding s' by (simp add: s3_def Let_def emit_def render_calls_def)
  ultimately show ?thesis by blast
qed

lemma render_Inl:
  "render drv fi s = Inl e \<Longrightarrow> (\<exists>r. e = CheckResult r) \<or> e = OutOfRange"
  by (auto simp: render_def Let_def bind_result_eq_Inl VK_CHECK_RESULT_eq_Inl
      VK_CHECK_RESULT_eq_Inr recordCommands_def split: if_splits)

subsection \<open>Printing the counters\<close>

lemma statistics_shape:
  "length (pipelineStats s) \<le> length (pipelineStatNames s) \<Longrightarrow>
   OnUpdateUIOverlay_statistics i s =
     Inr (s\<lparr>calls := calls s @
            map (\<lambda>j. overlay_text (pipelineStatNames s ! j @ '': %d'') (pipelineStats s ! j))
              [i..<length (pipelineStats s)]\<rparr>)"
proof (induction i s rule: OnUpdateUIOverlay_statistics.induct)
  case (1 i s)
  show ?case
  proof (cases "i < length (pipelineStats s)")
    case True
    with "1.prems" have n: "i < length (pipelineStatNames s)" by simp
    let ?s1 = "emit (overlay_text (pipelineStatNames s ! i @ '': %d'') (pipelineStats s ! i)) s"
    have "OnUpdateUIOverlay_statistics i s = OnUpdateUIOverlay_statistics (Suc i) ?s1"
      using True n by (subst OnUpdateUIOverlay_statistics.simps) simp
    also have "\<dots> = Inr (?s1\<lparr>calls := calls ?s1 @
            map (\<lambda>j. overlay_text (pipelineStatNames ?s1 ! j @ '': %d'') (pipelineStats ?s1 ! j))
              [Suc i..<length (pipelineStats ?s1)]\<rparr>)"
      using "1.prems" by (intro "1.IH" [OF True n]) (simp add: emit_def)
    finally show ?thesis
      using True by (simp add: emit_def upt_conv_Cons)
  next
    case False
    then show ?thesis
      by (subst OnUpdateUIOverlay_statistics.simps) simp
  qed
qed

lemma statistics_Inl:
  "OnUpdateUIOverlay_statistics i s = Inl e \<Longrightarrow> e = OutOfRange"
proof (induction i s rule: OnUpdateUIOverlay_statistics.induct)
  case (1 i s)
  from "1.prems" show ?case
    by (subst (asm) OnUpdateUIOverlay_statistics.simps) (auto split: if_splits dest: "1.IH")
qed

lemma checkBox_simps [simp]:
  "fst (checkBox v c) = c" "snd (checkBox v c) = (v \<noteq> c)"
  by (auto simp: checkBox_def)

lemma settings_shape:
  "OnUpdateUIOverlay_settings ui s =
    (fst (comboBox (cullMode s) [''None'', ''Front'', ''Back'', ''Back and front'']
             (comboBox_Cull_mode ui)) \<or>
      checkBox_Blending ui \<or>
      (fillModeNonSolid (deviceFeatures s) \<and> checkBox_Wireframe ui) \<or>
      (tessellationShader (deviceFeatures s) \<and> checkBox_Tessellation ui) \<or>
      checkBox_Discard ui,
     s\<lparr>models_objectIndex :=
         snd (comboBox (models_objectIndex s) (models_names s) (comboBox_Object_type ui)),
       gridSize := snd (sliderInt (gridSize s) 1 10 (sliderInt_Grid_size ui)),
       cullMode := snd (comboBox (cullMode s) [''None'', ''Front'', ''Back'', ''Back and front'']
                          (comboBox_Cull_mode ui)),
       blending := (blending s \<noteq> checkBox_Blending ui),
       wireframe := (wireframe s \<noteq> (fillModeNonSolid (deviceFeatures s) \<and> checkBox_Wireframe ui)),
       tessellation :=
         (tessellation s \<noteq> (tessellationShader (deviceFeatures s) \<and> checkBox_Tessellation ui)),
       discard := (discard s \<noteq> checkBox_Discard ui),
       calls := calls s @ settings_widgets s\<rparr>)"
proof -
  define s1 where "s1 = emit (overlay_comboBox ''Object type'')
    (s\<lparr>models_objectIndex :=
         snd (comboBox (models_objectIndex s) (models_names s) (comboBox_Object_type ui))\<rparr>)"
  define s2 where "s2 = emit (overlay_sliderInt ''Grid size'' 1 10)
    (s1\<lparr>gridSize := snd (sliderInt (gridSize s1) 1 10 (sliderInt_Grid_size ui))\<rparr>)"
  define cull where "cull = comboBox (cullMode s2) [''None'', ''Front'', ''Back'', ''Back and front'']
                          (comboBox_Cull_mode ui)"
  define s3 where "s3 = emit (overlay_comboBox ''Cull mode'') (s2\<lparr>cullMode := snd cull\<rparr>)"
  define s4 where "s4 = emit (overlay_checkBox ''Blending'')
    (s3\<lparr>blending := snd (checkBox (blending s3) (checkBox_Blending ui))\<rparr>)"
  define s5 where "s5 = (if fillModeNonSolid (deviceFeatures s4)
                then emit (overlay_checkBox ''Wireframe'')
                  (s4\<lparr>wireframe := snd (checkBox (wireframe s4) (checkBox_Wireframe ui))\<rparr>)
                else s4)"
  define s6 where "s6 = (if tessellationShader (deviceFeatures s5)
                then emit (overlay_checkBox ''Tessellation'')
                  (s5\<lparr>tessellation := snd (checkBox (tessellation s5) (checkBox_Tessellation ui))\<rparr>)
                else s5)"
  define s7 where "s7 = emit (overlay_checkBox ''Discard'')
    (s6\<lparr>discard := snd (checkBox (discard s6) (checkBox_Discard ui))\<rparr>)"
  define flag where "flag =
    (if fst (checkBox (discard s6) (checkBox_Discard ui)) then True
     else if tessellationShader (deviceFeatures s5) \<and>
             fst (checkBox (tessellation s5) (checkBox_Tessellation ui)) then True
     else if fillModeNonSolid (deviceFeatures s4) \<and>
             fst (checkBox (wireframe s4) (checkBox_Wireframe ui)) then True
     else if fst (checkBox (blending s3) (checkBox_Blending ui)) then True
     else if fst cull then True else False)"
  have def: "OnUpdateUIOverlay_settings ui s = (flag, s7)"
    unfolding OnUpdateUIOverlay_settings_def Let_def flag_def s7_def s6_def s5_def s4_def s3_def
      cull_def s2_def s1_def ..
  have e1: "s1 = s\<lparr>models_objectIndex :=
         snd (comboBox (models_objectIndex s) (models_names s) (comboBox_Object_type ui)),
       calls := calls s @ [overlay_comboBox ''Object type'']\<rparr>"
    by (simp add: s1_def emit_def)
  have e2: "s2 = s1\<lparr>gridSize := snd (sliderInt (gridSize s) 1 10 (sliderInt_Grid_size ui)),
       calls := calls s @ [overlay_comboBox ''Object type'', overlay_sliderInt ''Grid size'' 1 10]\<rparr>"
    by (simp add: s2_def emit_def e1)
  have c: "cull = comboBox (cullMode s) [''None'', ''Front'', ''Back'', ''Back and front'']
                          (comboBox_Cull_mode ui)"
    by (simp add: cull_def e2 e1)
  have e3: "s3 = s2\<lparr>cullMode := snd cull,
       calls := calls s @ [overlay_comboBox ''Object type'', overlay_sliderInt ''Grid size'' 1 10,
         overlay_comboBox ''Cull mode'']\<rparr>"
    by (simp add: s3_def emit_def e2)
  have e4: "s4 = s3\<lparr>blending := (blending s \<noteq> checkBox_Blending ui),
       calls := calls s @ [overlay_comboBox ''Object type'', overlay_sliderInt ''Grid size'' 1 10,
         overlay_comboBox ''Cull mode'', overlay_checkBox ''Blending'']\<rparr>"
    by (simp add: s4_def emit_def e3 e2 e1)
  have d4: "deviceFeatures s4 = deviceFeatures s" "wireframe s4 = wireframe s"
    "tessellation s4 = tessellation s" "discard s4 = discard s"
    by (simp_all add: e4 e3 e2 e1)
  have e5: "s5 = s4\<lparr>wireframe :=
        (wireframe s \<noteq> (fillModeNonSolid (deviceFeatures s) \<and> checkBox_Wireframe ui)),
       calls := calls s @ [overlay_comboBox ''Object type'', overlay_sliderInt ''Grid size'' 1 10,
         overlay_comboBox ''Cull mode'', overlay_checkBox ''Blending''] @
         (if fillModeNonSolid (deviceFeatures s) then [overlay_checkBox ''Wireframe''] else [])\<rparr>"
    unfolding s5_def d4 by (simp add: emit_def e4 e3 e2 e1)
  have d5: "deviceFeatures s5 = deviceFeatures s" "tessellation s5 = tessellation s"
    "discard s5 = discard s"
    by (simp_all add: e5 d4)
  have e6: "s6 = s5\<lparr>tessellation :=
        (tessellation s \<noteq> (tessellationShader (deviceFeatures s) \<and> checkBox_Tessellation ui)),
       calls := calls s @ [overlay_comboBox ''Object type'', overlay_sliderInt ''Grid size'' 1 10,
         overlay_comboBox ''Cull mode'', overlay_checkBox ''Blending''] @
         (if fillModeNonSolid (deviceFeatures s) then [overlay_checkBox ''Wireframe''] else []) @
         (if tessellationShader (deviceFeatures s) then [overlay_checkBox ''Tessellation''] else [])\<rparr>"
    unfolding s6_def d5 by (simp add: emit_def e5 e4 e3 e2 e1)
  have d6: "discard s6 = discard s"
    by (simp add: e6 d5)
  have e7: "s7 = s6\<lparr>discard := (discard s \<noteq> checkBox_Discard ui),
       calls := calls s @ settings_widgets s\<rparr>"
    unfolding s7_def d6 by (simp add: emit_def e6 e5 e4 e3 e2 e1 settings_widgets_def)
  have f: "flag = (fst cull \<or> checkBox_Blending ui \<or>
      (fillModeNonSolid (deviceFeatures s) \<and> checkBox_Wireframe ui) \<or>
      (tessellationShader (deviceFeatures s) \<and> checkBox_Tessellation ui) \<or>
      checkBox_Discard ui)"
    unfolding flag_def d4 d5 d6 by auto
  show ?thesis
    unfolding def f c [symmetric] by (simp add: e7 e6 e5 e4 e3 e2 e1)
qed

lemma statistics_Inr:
  "OnUpdateUIOverlay_statistics i s = Inr s' \<Longrightarrow>
   s' = s\<lparr>calls := calls s @
            map (\<lambda>j. overlay_text (pipelineStatNames s ! j @ '': %d'') (pipelineStats s ! j))
              [i..<length (pipelineStats s)]\<rparr>"
proof (induction i s rule: OnUpdateUIOverlay_statistics.induct)
  case (1 i s)
  show ?case
  proof (cases "i < length (pipelineStats s)")
    case True
    let ?s1 = "emit (overlay_text (pipelineStatNames s ! i @ '': %d'') (pipelineStats s ! i)) s"
    from "1.prems" True have n: "i < length (pipelineStatNames s)"
      and r: "OnUpdateUIOverlay_statistics (Suc i) ?s1 = Inr s'"
      by (subst (asm) OnUpdateUIOverlay_statistics.simps; simp split: if_splits)+
    from "1.IH" [OF True n r] show ?thesis
      using True by (simp add: emit_def upt_conv_Cons)
  next
    case False
    with "1.prems" show ?thesis
      by (subst (asm) OnUpdateUIOverlay_statistics.simps) simp
  qed
qed

lemma update_shape:
  assumes "OnUpdateUIOverlay drv ui s = Inr s'"
  shows "s' = (if recreate_requested ui s
               then (settings_applied ui s)
                      \<lparr>pipelineLayout := Some (),
                       calls := calls s @ overlay_widgets ui s @
                                createPipelines_calls (settings_applied ui s),
                       pipeline := Some (pipelineCI (settings_applied ui s))\<rparr>
               else (settings_applied ui s)\<lparr>calls := calls s @ overlay_widgets ui s\<rparr>)"
proof -
  let ?s0 = "emit (overlay_header ''Settings'') s"
  define s1 where "s1 = (if header_Settings ui then snd (OnUpdateUIOverlay_settings ui ?s0) else ?s0)"
  have e1: "s1 = (settings_applied ui s)
     \<lparr>calls := calls s @ overlay_header ''Settings'' #
         (if header_Settings ui then settings_widgets s else [])\<rparr>"
    by (simp add: s1_def settings_shape settings_applied_def emit_def settings_widgets_def)
  have rq: "fst (if header_Settings ui then OnUpdateUIOverlay_settings ui ?s0 else (False, ?s0)) =
      recreate_requested ui s"
    by (simp add: settings_shape recreate_requested_def emit_def)
  have sn: "snd (if header_Settings ui then OnUpdateUIOverlay_settings ui ?s0 else (False, ?s0)) = s1"
    by (simp add: s1_def)
  have d: "OnUpdateUIOverlay drv ui s =
     bind_result
           (if pipelineStats s1 \<noteq> []
            then let s2 = emit (overlay_header ''Pipeline statistics'') s1
                 in if header_Pipeline_statistics ui then OnUpdateUIOverlay_statistics 0 s2
                    else Inr s2
            else Inr s1)
           (\<lambda>s3. if recreate_requested ui s then createPipelines drv s3 else Inr s3)"
    unfolding OnUpdateUIOverlay_def Let_def rq sn ..
  have st: "pipelineStats s1 = pipelineStats s" "pipelineStatNames s1 = pipelineStatNames s"
    by (simp_all add: e1 settings_applied_def)
  from assms obtain s3 where
    a: "(if pipelineStats s1 \<noteq> []
            then let s2 = emit (overlay_header ''Pipeline statistics'') s1
                 in if header_Pipeline_statistics ui then OnUpdateUIOverlay_statistics 0 s2
                    else Inr s2
            else Inr s1) = Inr s3"
    and b: "(if recreate_requested ui s then createPipelines drv s3 else Inr s3) = Inr s'"
    unfolding d by (auto simp: bind_result_eq_Inr)
  have e3: "s3 = s1\<lparr>calls := calls s1 @ statistics_widgets ui s\<rparr>"
    using a st
    by (auto simp: Let_def statistics_widgets_def emit_def split: if_splits dest!: statistics_Inr)
  then have e3': "s3 = (settings_applied ui s)\<lparr>calls := calls s @ overlay_widgets ui s\<rparr>"
    by (simp add: e1 overlay_widgets_def)
  show ?thesis
  proof (cases "recreate_requested ui s")
    case True
    with b have "createPipelines drv s3 = Inr s'" by simp
    from createPipelines_shape [OF this] show ?thesis
      using True by (simp add: e3' createPipelines_calls_def)
  next
    case False
    with b show ?thesis by (simp add: e3')
  qed
qed

lemma prepare_Inl:
  "prepare drv s = Inl e \<Longrightarrow> \<exists>r. e = CheckResult r"
  by (auto simp: prepare_def Let_def bind_result_eq_Inl
      dest: prepare_frames_Inl createQueryPool_Inl createDescriptors_Inl createPipelines_Inl)

lemma update_Inl:
  "OnUpdateUIOverlay drv ui s = Inl e \<Longrightarrow> (\<exists>r. e = CheckResult r) \<or> e = OutOfRange"
  by (auto simp: OnUpdateUIOverlay_def Let_def bind_result_eq_Inl
      split: if_splits dest: statistics_Inl createPipelines_Inl)

text \<open>The projections of a list of calls distribute over append.\<close>

lemma submitted_append [simp]: "submitted (xs @ ys) = submitted xs @ submitted ys"
  by (induction xs rule: submitted.induct) simp_all

lemma pipelines_created_append [simp]:
  "pipelines_created (xs @ ys) = pipelines_created xs @ pipelines_created ys"
  by (induction xs rule: pipelines_created.induct) simp_all

lemma submitted_none:
  "\<forall>c \<in> set xs. \<not> is_readback_or_submit c \<Longrightarrow> submitted xs = []"
  by (induction xs rule: submitted.induct) simp_all

lemma pipelines_created_none:
  "\<forall>c \<in> set xs. \<not> is_pipeline_creation c \<Longrightarrow> pipelines_created xs = []"
  by (induction xs rule: pipelines_created.induct) simp_all

lemma filter_none: "\<forall>c \<in> set xs. \<not> P c \<Longrightarrow> filter P xs = []"
  by (induction xs) simp_all

lemma overlay_widgets_kinds:
  "c \<in> set (overlay_widgets ui s) \<Longrightarrow> \<not> is_readback_or_submit c \<and> \<not> is_pipeline_creation c"
  by (auto simp: overlay_widgets_def settings_widgets_def statistics_widgets_def
      split: if_splits)

lemma createPipelines_calls_kinds:
  "filter is_readback_or_submit (createPipelines_calls s) = []"
  "submitted (createPipelines_calls s) = []"
  "pipelines_created (createPipelines_calls s) = [pipelineCI s]"
  by (simp_all add: createPipelines_calls_def)

lemma render_calls_kinds:
  "filter is_readback_or_submit (render_calls fi s cmds) =
     [vkGetQueryPoolResults 0 1 (length (pipelineStats s) mod 2 ^ 32 * 8) 8 VK_QUERY_RESULT_64_BIT,
      submitFrame cmds]"
  "submitted (render_calls fi s cmds) = [cmds]"
  "pipelines_created (render_calls fi s cmds) = []"
  by (simp_all add: render_calls_def)

text \<open>What the create-info says about wireframe and tessellation.\<close>

lemma pipelineCI_polygonMode:
  "polygonMode (pRasterizationState (pipelineCI s)) =
     (if wireframe s then VK_POLYGON_MODE_LINE else VK_POLYGON_MODE_FILL)"
  by (simp add: pipelineCI_def Let_def pipelineRasterizationStateCreateInfo_def)

lemma pipelineCI_uses_tessellation:
  "uses_tessellation (pipelineCI s) = tessellation s"
  by (auto simp: uses_tessellation_def pipelineCI_def Let_def resize_def loadShader_def
      pipelineInputAssemblyStateCreateInfo_def numeral_2_eq_2)

text \<open>The state \<open>prepare\<close> leaves behind.\<close>

lemma start_shape:
  assumes "start drv features frames assets shaders = Inr s"
  shows "running s \<and> deviceFeatures s = features \<and>
         gridSize s = 3 \<and> models_objectIndex s = 3 \<and> cullMode s = VK_CULL_MODE_BACK_BIT \<and>
         \<not> blending s \<and> \<not> discard s \<and> \<not> wireframe s \<and> \<not> tessellation s \<and>
         filter is_readback_or_submit (calls s) = [] \<and> submitted (calls s) = [] \<and>
         pipelines_created (calls s) = [pipelineCI s]"
proof -
  let ?s0 = "VulkanExample_new features frames assets shaders"
  from assms obtain sa where a: "getEnabledFeatures ?s0 = Inr sa" and b: "prepare drv sa = Inr s"
    by (auto simp: start_def bind_result_eq_Inr)
  from a have q: "pipelineStatisticsQuery features"
    by (auto simp: getEnabledFeatures_def Let_def VulkanExample_new_def split: if_splits)
  from a obtain ef where sa: "sa = ?s0\<lparr>enabledFeatures := ef\<rparr>"
    by (auto simp: getEnabledFeatures_def Let_def bind_result_eq_Inr split: if_splits)
  let ?s1 = "sa\<lparr>frameObjects := frameCount sa\<rparr>"
  from b obtain s2 s3 s4 s5 where
    p2: "prepare_frames drv (frameObjects ?s1) ?s1 = Inr s2"
    and p3: "createQueryPool drv (loadAssets s2) = Inr s3"
    and p4: "createDescriptors drv s3 = Inr s4"
    and p5: "createPipelines drv s4 = Inr s5"
    and s: "s = s5\<lparr>prepared := True\<rparr>"
    by (auto simp: prepare_def Let_def bind_result_eq_Inr)
  note e2 = prepare_frames_eq_Inr [OF p2]
  have f2: "deviceFeatures s2 = features" "gridSize s2 = 3" "models_objectIndex s2 = 3"
    "cullMode s2 = VK_CULL_MODE_BACK_BIT"
    "\<not> blending s2" "\<not> discard s2" "\<not> wireframe s2" "\<not> tessellation s2"
    "frameCount s2 = frames" "frameObjects s2 = frames"
    "calls s2 = replicate frames createAndMapBuffer"
    by (simp_all add: e2 sa VulkanExample_new_def)
  obtain objs new where la: "loadAssets s2 =
       s2\<lparr>models_names := [''Sphere'', ''Teapot'', ''Torusknot'', ''Venus''],
          models_objects := objs, calls := calls s2 @ new\<rparr>"
    and lo: "length objs = 4" and ln: "\<forall>c \<in> set new. \<exists>p. c = loadFromFile p"
    using loadAssets_shape [of s2] by blast
  from createQueryPool_shape [OF p3] obtain names stats where
    e3: "s3 = (loadAssets s2)\<lparr>pipelineStatNames := names, pipelineStats := stats,
                        calls := calls (loadAssets s2) @
                          [vkCreateQueryPool (queryPoolInfo (loadAssets s2))],
                        queryPool := Some (queryPoolInfo (loadAssets s2))\<rparr>"
    and n: "length names = (if tessellationShader (deviceFeatures (loadAssets s2)) then 8 else 6)"
    and st: "length stats = length names"
    by blast
  note e4 = createDescriptors_shape [OF p4]
  note e5 = createPipelines_shape [OF p5]
  have qi: "queryPoolInfo s = queryPoolInfo (loadAssets s2)"
    by (rule queryPoolInfo_cong) (simp add: s e5 e4 e3)
  have ci: "pipelineCI s = pipelineCI s4"
    by (rule pipelineCI_cong) (simp_all add: s e5)
  have new: "filter is_readback_or_submit new = []" "submitted new = []"
    "pipelines_created new = []"
    using ln by (auto intro!: filter_none submitted_none pipelines_created_none)
  have m: "deviceFeatures s = features" "gridSize s = 3" "models_objectIndex s = 3"
    "cullMode s = VK_CULL_MODE_BACK_BIT"
    "\<not> blending s" "\<not> discard s" "\<not> wireframe s" "\<not> tessellation s"
    by (simp_all add: s e5 e4 e3 la f2)
  have r: "running s"
    unfolding running_def ci qi
    using q n st lo
    by (simp add: s e5 e4 e3 la f2)
  have c: "calls s = replicate frames createAndMapBuffer @ new @
      [vkCreateQueryPool (queryPoolInfo (loadAssets s2)),
       vkCreateDescriptorPool (3 * frames), vkCreateDescriptorSetLayout] @
      concat (replicate frames [vkAllocateDescriptorSets, vkUpdateDescriptorSets]) @
      createPipelines_calls s4"
    by (simp add: s e5 e4 e3 la f2)
  have k: "filter is_readback_or_submit (calls s) = []" "submitted (calls s) = []"
    "pipelines_created (calls s) = [pipelineCI s]"
    unfolding c ci
    by (simp_all add: new createPipelines_calls_kinds filter_concat
        submitted_none pipelines_created_none)
  show ?thesis using r m k by simp
qed

text \<open>The widgets keep their values in range.\<close>

lemma comboBox_range:
  "0 \<le> i \<Longrightarrow> i < int (length items) \<Longrightarrow>
   0 \<le> snd (comboBox i items p) \<and> snd (comboBox i items p) < int (length items)"
  by (auto simp: comboBox_def split: option.splits)

lemma comboBox_unchanged: "\<not> fst (comboBox i items p) \<Longrightarrow> snd (comboBox i items p) = i"
  by (auto simp: comboBox_def split: option.splits if_splits)

lemma sliderInt_range:
  "lo \<le> hi \<Longrightarrow> lo \<le> v \<Longrightarrow> v \<le> hi \<Longrightarrow>
   lo \<le> snd (sliderInt v lo hi p) \<and> snd (sliderInt v lo hi p) \<le> hi"
  by (auto simp: sliderInt_def split: option.splits)

lemma settings_applied_kept [simp]:
  "deviceFeatures (settings_applied ui s) = deviceFeatures s"
  "pipelineStats (settings_applied ui s) = pipelineStats s"
  "pipelineStatNames (settings_applied ui s) = pipelineStatNames s"
  "models_objects (settings_applied ui s) = models_objects s"
  "models_names (settings_applied ui s) = models_names s"
  "queryPool (settings_applied ui s) = queryPool s"
  "pipeline (settings_applied ui s) = pipeline s"
  "pipelineLayout (settings_applied ui s) = pipelineLayout s"
  "shadersPath (settings_applied ui s) = shadersPath s"
  "calls (settings_applied ui s) = calls s"
  by (simp_all add: settings_applied_def)

lemma settings_applied_no_request:
  assumes "\<not> recreate_requested ui s"
  shows "pipelineCI (settings_applied ui s) = pipelineCI s"
proof (rule pipelineCI_cong)
  from assms show "cullMode (settings_applied ui s) = cullMode s"
    by (auto simp: settings_applied_def recreate_requested_def comboBox_unchanged)
qed (use assms in \<open>auto simp: settings_applied_def recreate_requested_def\<close>)

lemma settings_applied_running:
  assumes "running s"
  shows "1 \<le> gridSize (settings_applied ui s) \<and> gridSize (settings_applied ui s) \<le> 10 \<and>
         0 \<le> models_objectIndex (settings_applied ui s) \<and>
         models_objectIndex (settings_applied ui s) < 4 \<and>
         (wireframe (settings_applied ui s) \<longrightarrow> fillModeNonSolid (deviceFeatures s)) \<and>
         (tessellation (settings_applied ui s) \<longrightarrow> tessellationShader (deviceFeatures s))"
proof -
  from assms have g: "1 \<le> gridSize s" "gridSize s \<le> 10"
    and m: "0 \<le> models_objectIndex s" "models_objectIndex s < int (length (models_names s))"
    and n: "length (models_names s) = 4"
    and w: "wireframe s \<longrightarrow> fillModeNonSolid (deviceFeatures s)"
    and t: "tessellation s \<longrightarrow> tessellationShader (deviceFeatures s)"
    by (simp_all add: running_def)
  have "1 \<le> snd (sliderInt (gridSize s) 1 10 (sliderInt_Grid_size ui)) \<and>
        snd (sliderInt (gridSize s) 1 10 (sliderInt_Grid_size ui)) \<le> 10"
    using g by (intro sliderInt_range) simp_all
  moreover have "0 \<le> snd (comboBox (models_objectIndex s) (models_names s) (comboBox_Object_type ui)) \<and>
     snd (comboBox (models_objectIndex s) (models_names s) (comboBox_Object_type ui)) < 4"
    using comboBox_range [OF m, of "comboBox_Object_type ui"] n by simp
  ultimately show ?thesis
    using g m n w t by (auto simp: settings_applied_def)
qed

lemma queryPoolInfo_settings_applied [simp]:
  "queryPoolInfo (settings_applied ui s) = queryPoolInfo s"
  by (rule queryPoolInfo_cong) simp

lemma running_stats_count:
  "running s \<Longrightarrow> length (pipelineStats s) mod 2 ^ 32 = length (pipelineStats s)"
  by (simp add: running_def split: if_splits)

lemma running_recordCommands:
  "running s \<Longrightarrow>
   recordCommands s =
     Inr ([vkCmdResetQueryPool 0 (length (pipelineStats s)),
           vkCmdBeginRenderPass, vkCmdSetViewport, vkCmdSetScissor,
           vkCmdBeginQuery 0 0,
           vkCmdBindDescriptorSets, vkCmdBindPipeline (pipeline s),
           vkCmdBindPipeline (pipeline s), vkCmdBindDescriptorSets,
           bindBuffers (nat (models_objectIndex s))] @
          draw_grid (gridSize s) (nat (models_objectIndex s)) 0 @
          [vkCmdEndQuery 0, UIOverlay_draw, vkCmdEndRenderPass])"
  using running_stats_count [of s] by (simp add: recordCommands_def running_def)

lemma render_step:
  assumes "running s" and "render drv fi s = Inr s'"
  shows "\<exists>cmds. recordCommands s = Inr cmds \<and> running s' \<and>
           deviceFeatures s' = deviceFeatures s \<and>
           length (pipelineStats s') = length (pipelineStats s) \<and>
           filter is_readback_or_submit (calls s') =
             filter is_readback_or_submit (calls s) @
             [vkGetQueryPoolResults 0 1 (length (pipelineStats s) * 8) 8 VK_QUERY_RESULT_64_BIT,
              submitFrame cmds] \<and>
           submitted (calls s') = submitted (calls s) @ [cmds] \<and>
           pipelines_created (calls s') = pipelines_created (calls s)"
proof -
  from render_shape [OF assms(2)] obtain cmds where c: "recordCommands s = Inr cmds"
    and s': "s' = s\<lparr>pipelineStats :=
                    write_results (pipelineStats s) (length (pipelineStats s) mod 2 ^ 32 * 8)
                      (query_results fi),
                  calls := calls s @ render_calls fi s cmds\<rparr>"
    by blast
  have q: "queryPoolInfo s' = queryPoolInfo s"
    by (rule queryPoolInfo_cong) (simp add: s')
  have p: "pipelineCI s' = pipelineCI s"
    by (rule pipelineCI_cong) (simp_all add: s')
  have l: "length (pipelineStats s') = length (pipelineStats s)"
    by (simp add: s')
  have k: "deviceFeatures s' = deviceFeatures s" "pipelineStatNames s' = pipelineStatNames s"
    "queryPool s' = queryPool s" "wireframe s' = wireframe s" "tessellation s' = tessellation s"
    "gridSize s' = gridSize s" "models_objectIndex s' = models_objectIndex s"
    "models_objects s' = models_objects s" "models_names s' = models_names s"
    "pipeline s' = pipeline s" "pipelineLayout s' = pipelineLayout s"
    by (simp_all add: s')
  have r: "running s'"
    using assms(1) unfolding running_def q p l k by simp
  have "calls s' = calls s @ render_calls fi s cmds"
    by (simp add: s')
  then show ?thesis
    using c r l k(1) running_stats_count [OF assms(1)]
    by (simp add: render_calls_kinds)
qed

lemma update_step:
  assumes "running s" and "OnUpdateUIOverlay drv ui s = Inr s'"
  shows "running s' \<and> deviceFeatures s' = deviceFeatures s \<and>
         length (pipelineStats s') = length (pipelineStats s) \<and>
         filter is_readback_or_submit (calls s') = filter is_readback_or_submit (calls s) \<and>
         submitted (calls s') = submitted (calls s) \<and>
         pipelines_created (calls s') =
           pipelines_created (calls s) @ (if recreate_requested ui s then [pipelineCI s'] else [])"
proof -
  let ?a = "settings_applied ui s"
  note sh = update_shape [OF assms(2)]
  have w: "filter is_readback_or_submit (overlay_widgets ui s) = []"
    "submitted (overlay_widgets ui s) = []" "pipelines_created (overlay_widgets ui s) = []"
    using overlay_widgets_kinds [of _ ui s]
    by (auto intro!: filter_none submitted_none pipelines_created_none)
  from assms(1) have r0: "pipelineStatisticsQuery (deviceFeatures s)"
    "length (pipelineStats s) = (if tessellationShader (deviceFeatures s) then 8 else 6)"
    "length (pipelineStatNames s) = length (pipelineStats s)"
    "queryPool s = Some (queryPoolInfo s)"
    "length (models_objects s) = 4" "length (models_names s) = 4"
    "pipeline s = Some (pipelineCI s)" "pipelineLayout s = Some ()"
    by (simp_all add: running_def)
  note ra = settings_applied_running [OF assms(1), of ui]
  show ?thesis
  proof (cases "recreate_requested ui s")
    case True
    then have s': "s' = ?a\<lparr>pipelineLayout := Some (),
                       calls := calls s @ overlay_widgets ui s @ createPipelines_calls ?a,
                       pipeline := Some (pipelineCI ?a)\<rparr>"
      using sh by simp
    have q: "queryPoolInfo s' = queryPoolInfo s"
      by (rule queryPoolInfo_cong) (simp add: s')
    have p: "pipelineCI s' = pipelineCI ?a"
      by (rule pipelineCI_cong) (simp_all add: s')
    have "running s'"
      unfolding running_def q p using r0 ra by (simp add: s')
    then show ?thesis
      using True by (simp add: s' p w createPipelines_calls_kinds)
  next
    case False
    then have s': "s' = ?a\<lparr>calls := calls s @ overlay_widgets ui s\<rparr>"
      using sh by simp
    have q: "queryPoolInfo s' = queryPoolInfo s"
      by (rule queryPoolInfo_cong) (simp add: s')
    have p: "pipelineCI s' = pipelineCI s"
      using settings_applied_no_request [OF False] by (simp add: s')
    have "running s'"
      unfolding running_def q p using r0 ra by (simp add: s')
    then show ?thesis
      using False by (simp add: s' w)
  qed
qed

lemma run_reach:
  assumes "running s" and "run acts s = Inr s'"
  shows "running s' \<and> deviceFeatures s' = deviceFeatures s \<and>
         length (pipelineStats s') = length (pipelineStats s) \<and>
         (\<exists>frames. length frames = length (filter is_Render acts) \<and>
            filter is_readback_or_submit (calls s') =
              filter is_readback_or_submit (calls s) @
              concat (map (\<lambda>cmds. [vkGetQueryPoolResults 0 1 (length (pipelineStats s) * 8) 8
                                        VK_QUERY_RESULT_64_BIT,
                                      submitFrame cmds]) frames) \<and>
            submitted (calls s') = submitted (calls s) @ frames \<and>
            (\<forall>cmds \<in> set frames. \<exists>t. running t \<and> deviceFeatures t = deviceFeatures s \<and>
                length (pipelineStats t) = length (pipelineStats s) \<and>
                recordCommands t = Inr cmds)) \<and>
         (\<exists>cis. pipelines_created (calls s') = pipelines_created (calls s) @ cis \<and>
            (\<forall>ci \<in> set cis. \<exists>t. running t \<and> deviceFeatures t = deviceFeatures s \<and>
                ci = pipelineCI t))"
  using assms
proof (induction acts arbitrary: s)
  case Nil
  then show ?case by simp
next
  case (Cons a acts)
  from Cons.prems(2) obtain s1 where st: "step a s = Inr s1" and rn: "run acts s1 = Inr s'"
    by (auto simp: bind_result_eq_Inr)
  show ?case
  proof (cases a)
    case (Render drv fi)
    with st have "render drv fi s = Inr s1" by simp
    from render_step [OF Cons.prems(1) this] obtain cmds where
      c: "recordCommands s = Inr cmds" and r1: "running s1"
      and d1: "deviceFeatures s1 = deviceFeatures s"
      and l1: "length (pipelineStats s1) = length (pipelineStats s)"
      and f1: "filter is_readback_or_submit (calls s1) =
             filter is_readback_or_submit (calls s) @
             [vkGetQueryPoolResults 0 1 (length (pipelineStats s) * 8) 8 VK_QUERY_RESULT_64_BIT,
              submitFrame cmds]"
      and s1: "submitted (calls s1) = submitted (calls s) @ [cmds]"
      and p1: "pipelines_created (calls s1) = pipelines_created (calls s)"
      by blast
    from Cons.IH [OF r1 rn] obtain frames cis where
      r': "running s'" and d': "deviceFeatures s' = deviceFeatures s1"
      and l': "length (pipelineStats s') = length (pipelineStats s1)"
      and n: "length frames = length (filter is_Render acts)"
      and f': "filter is_readback_or_submit (calls s') =
              filter is_readback_or_submit (calls s1) @
              concat (map (\<lambda>cmds. [vkGetQueryPoolResults 0 1 (length (pipelineStats s1) * 8) 8
                                        VK_QUERY_RESULT_64_BIT,
                                      submitFrame cmds]) frames)"
      and s': "submitted (calls s') = submitted (calls s1) @ frames"
      and fr: "\<forall>cmds \<in> set frames. \<exists>t. running t \<and> deviceFeatures t = deviceFeatures s1 \<and>
                length (pipelineStats t) = length (pipelineStats s1) \<and>
                recordCommands t = Inr cmds"
      and p': "pipelines_created (calls s') = pipelines_created (calls s1) @ cis"
      and ci: "\<forall>ci \<in> set cis. \<exists>t. running t \<and> deviceFeatures t = deviceFeatures s1 \<and>
                ci = pipelineCI t"
      by blast
    have fr0: "\<forall>c \<in> set (cmds # frames). \<exists>t. running t \<and> deviceFeatures t = deviceFeatures s \<and>
                length (pipelineStats t) = length (pipelineStats s) \<and>
                recordCommands t = Inr c"
      using fr c Cons.prems(1) unfolding d1 l1 by auto
    have "length (cmds # frames) = length (filter is_Render (a # acts)) \<and>
            filter is_readback_or_submit (calls s') =
              filter is_readback_or_submit (calls s) @
              concat (map (\<lambda>cmds. [vkGetQueryPoolResults 0 1 (length (pipelineStats s) * 8) 8
                                        VK_QUERY_RESULT_64_BIT,
                                      submitFrame cmds]) (cmds # frames)) \<and>
            submitted (calls s') = submitted (calls s) @ (cmds # frames)"
      using n by (simp add: f' f1 s' s1 l1 Render)
    with fr0 have A: "\<exists>frames. length frames = length (filter is_Render (a # acts)) \<and>
            filter is_readback_or_submit (calls s') =
              filter is_readback_or_submit (calls s) @
              concat (map (\<lambda>cmds. [vkGetQueryPoolResults 0 1 (length (pipelineStats s) * 8) 8
                                        VK_QUERY_RESULT_64_BIT,
                                      submitFrame cmds]) frames) \<and>
            submitted (calls s') = submitted (calls s) @ frames \<and>
            (\<forall>cmds \<in> set frames. \<exists>t. running t \<and> deviceFeatures t = deviceFeatures s \<and>
                length (pipelineStats t) = length (pipelineStats s) \<and>
                recordCommands t = Inr cmds)"
      by blast
    have B: "\<exists>cis. pipelines_created (calls s') = pipelines_created (calls s) @ cis \<and>
            (\<forall>ci \<in> set cis. \<exists>t. running t \<and> deviceFeatures t = deviceFeatures s \<and>
                ci = pipelineCI t)"
      using p' ci unfolding p1 d1 by blast
    show ?thesis
      using r' d' l' A B by (simp add: d1 l1)
  next
    case (UpdateUIOverlay drv ui)
    with st have u: "OnUpdateUIOverlay drv ui s = Inr s1" by simp
    from update_step [OF Cons.prems(1) u] have
      r1: "running s1"
      and d1: "deviceFeatures s1 = deviceFeatures s"
      and l1: "length (pipelineStats s1) = length (pipelineStats s)"
      and f1: "filter is_readback_or_submit (calls s1) = filter is_readback_or_submit (calls s)"
      and s1: "submitted (calls s1) = submitted (calls s)"
      and p1: "pipelines_created (calls s1) =
           pipelines_created (calls s) @ (if recreate_requested ui s then [pipelineCI s1] else [])"
      by simp_all
    from Cons.IH [OF r1 rn] obtain frames cis where
      r': "running s'" and d': "deviceFeatures s' = deviceFeatures s1"
      and l': "length (pipelineStats s') = length (pipelineStats s1)"
      and n: "length frames = length (filter is_Render acts)"
      and f': "filter is_readback_or_submit (calls s') =
              filter is_readback_or_submit (calls s1) @
              concat (map (\<lambda>cmds. [vkGetQueryPoolResults 0 1 (length (pipelineStats s1) * 8) 8
                                        VK_QUERY_RESULT_64_BIT,
                                      submitFrame cmds]) frames)"
      and s': "submitted (calls s') = submitted (calls s1) @ frames"
      and fr: "\<forall>cmds \<in> set frames. \<exists>t. running t \<and> deviceFeatures t = deviceFeatures s1 \<and>
                length (pipelineStats t) = length (pipelineStats s1) \<and>
                recordCommands t = Inr cmds"
      and p': "pipelines_created (calls s') = pipelines_created (calls s1) @ cis"
      and ci: "\<forall>ci \<in> set cis. \<exists>t. running t \<and> deviceFeatures t = deviceFeatures s1 \<and>
                ci = pipelineCI t"
      by blast
    have "length frames = length (filter is_Render (a # acts)) \<and>
            filter is_readback_or_submit (calls s') =
              filter is_readback_or_submit (calls s) @
              concat (map (\<lambda>cmds. [vkGetQueryPoolResults 0 1 (length (pipelineStats s) * 8) 8
                                        VK_QUERY_RESULT_64_BIT,
                                      submitFrame cmds]) frames) \<and>
            submitted (calls s') = submitted (calls s) @ frames"
      using n by (simp add: f' f1 s' s1 l1 UpdateUIOverlay)
    with fr have A: "\<exists>frames. length frames = length (filter is_Render (a # acts)) \<and>
            filter is_readback_or_submit (calls s') =
              filter is_readback_or_submit (calls s) @
              concat (map (\<lambda>cmds. [vkGetQueryPoolResults 0 1 (length (pipelineStats s) * 8) 8
                                        VK_QUERY_RESULT_64_BIT,
                                      submitFrame cmds]) frames) \<and>
            submitted (calls s') = submitted (calls s) @ frames \<and>
            (\<forall>cmds \<in> set frames. \<exists>t. running t \<and> deviceFeatures t = deviceFeatures s \<and>
                length (pipelineStats t) = length (pipelineStats s) \<and>
                recordCommands t = Inr cmds)"
      unfolding d1 l1 by blast
    let ?new = "(if recreate_requested ui s then [pipelineCI s1] else []) @ cis"
    have "\<forall>ci \<in> set ?new. \<exists>t. running t \<and> deviceFeatures t = deviceFeatures s \<and>
                ci = pipelineCI t"
      using ci r1 d1 by auto
    moreover have "pipelines_created (calls s') = pipelines_created (calls s) @ ?new"
      by (simp add: p' p1)
    ultimately have B: "\<exists>cis. pipelines_created (calls s') = pipelines_created (calls s) @ cis \<and>
            (\<forall>ci \<in> set cis. \<exists>t. running t \<and> deviceFeatures t = deviceFeatures s \<and>
                ci = pipelineCI t)"
      by blast
    show ?thesis
      using r' d' l' A B by (simp add: d1 l1)
  qed
qed

lemma program_reach:
  assumes "program drv features frames assets shaders acts = Inr s"
  shows "running s \<and> deviceFeatures s = features \<and>
         (\<exists>fs. length fs = length (filter is_Render acts) \<and>
            filter is_readback_or_submit (calls s) =
              concat (map (\<lambda>cmds. [vkGetQueryPoolResults 0 1 (length (pipelineStats s) * 8) 8
                                        VK_QUERY_RESULT_64_BIT,
                                      submitFrame cmds]) fs) \<and>
            submitted (calls s) = fs \<and>
            (\<forall>cmds \<in> set fs. \<exists>t. running t \<and> deviceFeatures t = features \<and>
                length (pipelineStats t) = length (pipelineStats s) \<and>
                recordCommands t = Inr cmds)) \<and>
         (\<forall>ci \<in> set (pipelines_created (calls s)).
             \<exists>t. running t \<and> deviceFeatures t = features \<and> ci = pipelineCI t)"
proof -
  from assms obtain s0 where a: "start drv features frames assets shaders = Inr s0"
    and b: "run acts s0 = Inr s"
    by (auto simp: program_def bind_result_eq_Inr)
  from start_shape [OF a] have r0: "running s0" and d0: "deviceFeatures s0 = features"
    and f0: "filter is_readback_or_submit (calls s0) = []" and s0: "submitted (calls s0) = []"
    and p0: "pipelines_created (calls s0) = [pipelineCI s0]"
    by simp_all
  from run_reach [OF r0 b] obtain fs cis where
    r: "running s" and d: "deviceFeatures s = deviceFeatures s0"
    and l: "length (pipelineStats s) = length (pipelineStats s0)"
    and n: "length fs = length (filter is_Render acts)"
    and f: "filter is_readback_or_submit (calls s) =
              filter is_readback_or_submit (calls s0) @
              concat (map (\<lambda>cmds. [vkGetQueryPoolResults 0 1 (length (pipelineStats s0) * 8) 8
                                        VK_QUERY_RESULT_64_BIT,
                                      submitFrame cmds]) fs)"
    and sb: "submitted (calls s) = submitted (calls s0) @ fs"
    and fr: "\<forall>cmds \<in> set fs. \<exists>t. running t \<and> deviceFeatures t = deviceFeatures s0 \<and>
                length (pipelineStats t) = length (pipelineStats s0) \<and>
                recordCommands t = Inr cmds"
    and p: "pipelines_created (calls s) = pipelines_created (calls s0) @ cis"
    and ci: "\<forall>ci \<in> set cis. \<exists>t. running t \<and> deviceFeatures t = deviceFeatures s0 \<and>
                ci = pipelineCI t"
    by blast
  have A: "\<exists>fs. length fs = length (filter is_Render acts) \<and>
            filter is_readback_or_submit (calls s) =
              concat (map (\<lambda>cmds. [vkGetQueryPoolResults 0 1 (length (pipelineStats s) * 8) 8
                                        VK_QUERY_RESULT_64_BIT,
                                      submitFrame cmds]) fs) \<and>
            submitted (calls s) = fs \<and>
            (\<forall>cmds \<in> set fs. \<exists>t. running t \<and> deviceFeatures t = features \<and>
                length (pipelineStats t) = length (pipelineStats s) \<and>
                recordCommands t = Inr cmds)"
    using n f sb fr unfolding f0 s0 l d0 by (intro exI [of _ fs]) simp
  have B: "\<forall>ci \<in> set (pipelines_created (calls s)).
             \<exists>t. running t \<and> deviceFeatures t = features \<and> ci = pipelineCI t"
    using ci r0 d0 unfolding p p0 by auto
  show ?thesis
    using r d d0 A B by simp
qed

text \<open>With a driver that lets every call succeed the program does not stop.\<close>

lemma start_total:
  "pipelineStatisticsQuery features \<Longrightarrow> \<not> isl (start driver_ok features frames assets shaders)"
proof -
  assume q: "pipelineStatisticsQuery features"
  have pf: "\<not> isl (prepare_frames driver_ok n s)" for n s
    by (induction n arbitrary: s) (simp_all add: VK_CHECK_RESULT_def driver_ok_def)
  have cs: "\<not> isl (createDescriptors_sets driver_ok n s)" for n s
    by (induction n arbitrary: s) (simp_all add: VK_CHECK_RESULT_def driver_ok_def)
  have cd: "\<not> isl (createDescriptors driver_ok s)" for s
    by (simp add: createDescriptors_def VK_CHECK_RESULT_def driver_ok_def cs)
  have cq: "\<not> isl (createQueryPool driver_ok s)" for s
    by (simp add: createQueryPool_def Let_def VK_CHECK_RESULT_def driver_ok_def)
  have cp: "\<not> isl (createPipelines driver_ok s)" for s
    by (simp add: createPipelines_def Let_def VK_CHECK_RESULT_def driver_ok_def)
  have bi: "\<not> isl m \<Longrightarrow> (\<And>x. \<not> isl (f x)) \<Longrightarrow> \<not> isl (bind_result m f)" for m :: "error + 'a"
    and f :: "'a \<Rightarrow> error + 'b"
    by (cases m) simp_all
  have pr: "\<not> isl (prepare driver_ok s)" for s
    unfolding prepare_def Let_def
    by (intro bi pf cq cd cp) simp
  have "\<not> isl (getEnabledFeatures (VulkanExample_new features frames assets shaders))"
    using q by (simp add: getEnabledFeatures_def Let_def VulkanExample_new_def)
  then show ?thesis
    unfolding start_def by (intro bi pr)
qed

lemma render_total: "running s \<Longrightarrow> \<not> isl (render driver_ok fi s)"
proof -
  assume r: "running s"
  then have idx: "0 \<le> models_objectIndex s"
    "models_objectIndex s < int (length (models_objects s))"
    by (simp_all add: running_def)
  show ?thesis
    by (simp add: render_def Let_def VK_CHECK_RESULT_def driver_ok_def emit_def
        recordCommands_def idx)
qed

lemma update_total: "running s \<Longrightarrow> \<not> isl (OnUpdateUIOverlay driver_ok ui s)"
proof
  assume r: "running s" and "isl (OnUpdateUIOverlay driver_ok ui s)"
  then obtain e where e: "OnUpdateUIOverlay driver_ok ui s = Inl e"
    by (cases "OnUpdateUIOverlay driver_ok ui s") simp_all
  have cp: "createPipelines driver_ok t \<noteq> Inl e" for t
    by (simp add: createPipelines_def Let_def VK_CHECK_RESULT_def driver_ok_def)
  have st: "OnUpdateUIOverlay_statistics 0 t \<noteq> Inl e"
    if "length (pipelineStats t) \<le> length (pipelineStatNames t)" for t
    by (simp add: statistics_shape [OF that])
  let ?s0 = "emit (overlay_header ''Settings'') s"
  have l: "length (pipelineStats (snd (OnUpdateUIOverlay_settings ui ?s0))) \<le>
           length (pipelineStatNames (snd (OnUpdateUIOverlay_settings ui ?s0)))"
    "length (pipelineStats ?s0) \<le> length (pipelineStatNames ?s0)"
    using r by (simp_all add: settings_shape emit_def running_def)
  from e show False
    using cp l
    by (auto simp: OnUpdateUIOverlay_def Let_def bind_result_eq_Inl emit_def
        split: if_splits dest!: st [THEN notE, rotated])
qed


section \<open>Properties of the program\<close>

text \<open>
  Claim C1. \<open>createQueryPool\<close> creates the query pool for the counters the example
  displays: of the eleven pipeline statistics bits it requests exactly the six for
  input assembly vertices and primitives, vertex shader invocations, clipping
  invocations and primitives and fragment shader invocations, with \<open>queryCount\<close> 6,
  when the device has no tessellation shader, and the two tessellation bits as well,
  with \<open>queryCount\<close> 8, when it has one; \<open>pipelineStats\<close> and \<open>pipelineStatNames\<close>
  both end up with that many entries.
\<close>

theorem createQueryPool_sized:
  assumes "createQueryPool drv s = Inr s'"
  shows "drv (vkCreateQueryPool (queryPoolInfo s)) = VK_SUCCESS \<and>
         queryPool s' = Some (queryPoolInfo s) \<and>
         calls s' = calls s @ [vkCreateQueryPool (queryPoolInfo s)] \<and>
         queryType (queryPoolInfo s) = VK_QUERY_TYPE_PIPELINE_STATISTICS \<and>
         pipelineStatistics (queryPoolInfo s) =
           (if tessellationShader (deviceFeatures s) then 0x3E7 else 0xE7) \<and>
         [b \<leftarrow> all_pipeline_statistic_bits. b AND pipelineStatistics (queryPoolInfo s) \<noteq> 0] =
           [VK_QUERY_PIPELINE_STATISTIC_INPUT_ASSEMBLY_VERTICES_BIT,
            VK_QUERY_PIPELINE_STATISTIC_INPUT_ASSEMBLY_PRIMITIVES_BIT,
            VK_QUERY_PIPELINE_STATISTIC_VERTEX_SHADER_INVOCATIONS_BIT,
            VK_QUERY_PIPELINE_STATISTIC_CLIPPING_INVOCATIONS_BIT,
            VK_QUERY_PIPELINE_STATISTIC_CLIPPING_PRIMITIVES_BIT,
            VK_QUERY_PIPELINE_STATISTIC_FRAGMENT_SHADER_INVOCATIONS_BIT] @
           (if tessellationShader (deviceFeatures s)
            then [VK_QUERY_PIPELINE_STATISTIC_TESSELLATION_CONTROL_SHADER_PATCHES_BIT,
                  VK_QUERY_PIPELINE_STATISTIC_TESSELLATION_EVALUATION_SHADER_INVOCATIONS_BIT]
            else []) \<and>
         queryCount (queryPoolInfo s) = (if tessellationShader (deviceFeatures s) then 8 else 6) \<and>
         length (pipelineStats s') = queryCount (queryPoolInfo s) \<and>
         length (pipelineStatNames s') = queryCount (queryPoolInfo s)"
proof -
  note bits = VK_QUERY_PIPELINE_STATISTIC_INPUT_ASSEMBLY_VERTICES_BIT_def
      VK_QUERY_PIPELINE_STATISTIC_INPUT_ASSEMBLY_PRIMITIVES_BIT_def
      VK_QUERY_PIPELINE_STATISTIC_VERTEX_SHADER_INVOCATIONS_BIT_def
      VK_QUERY_PIPELINE_STATISTIC_GEOMETRY_SHADER_INVOCATIONS_BIT_def
      VK_QUERY_PIPELINE_STATISTIC_GEOMETRY_SHADER_PRIMITIVES_BIT_def
      VK_QUERY_PIPELINE_STATISTIC_CLIPPING_INVOCATIONS_BIT_def
      VK_QUERY_PIPELINE_STATISTIC_CLIPPING_PRIMITIVES_BIT_def
      VK_QUERY_PIPELINE_STATISTIC_FRAGMENT_SHADER_INVOCATIONS_BIT_def
      VK_QUERY_PIPELINE_STATISTIC_TESSELLATION_CONTROL_SHADER_PATCHES_BIT_def
      VK_QUERY_PIPELINE_STATISTIC_TESSELLATION_EVALUATION_SHADER_INVOCATIONS_BIT_def
      VK_QUERY_PIPELINE_STATISTIC_COMPUTE_SHADER_INVOCATIONS_BIT_def
  have ok: "drv (vkCreateQueryPool (queryPoolInfo s)) = VK_SUCCESS"
    using assms
    by (auto simp: createQueryPool_def Let_def bind_result_eq_Inr VK_CHECK_RESULT_eq_Inr
        queryPoolInfo_def)
  from createQueryPool_shape [OF assms] obtain names stats where
    s': "s' = s\<lparr>pipelineStatNames := names, pipelineStats := stats,
                 calls := calls s @ [vkCreateQueryPool (queryPoolInfo s)],
                 queryPool := Some (queryPoolInfo s)\<rparr>"
    and n: "length names = (if tessellationShader (deviceFeatures s) then 8 else 6)"
    and st: "length stats = length names"
    by blast
  have ty: "queryType (queryPoolInfo s) = VK_QUERY_TYPE_PIPELINE_STATISTICS"
    by (simp add: queryPoolInfo_def Let_def)
  have cnt: "queryCount (queryPoolInfo s) = (if tessellationShader (deviceFeatures s) then 8 else 6)"
    by (simp add: queryPoolInfo_def Let_def)
  have m: "pipelineStatistics (queryPoolInfo s) =
           (if tessellationShader (deviceFeatures s) then 0x3E7 else 0xE7)"
    by (simp add: queryPoolInfo_def Let_def bits)
  have f: "[b \<leftarrow> all_pipeline_statistic_bits. b AND pipelineStatistics (queryPoolInfo s) \<noteq> 0] =
           [VK_QUERY_PIPELINE_STATISTIC_INPUT_ASSEMBLY_VERTICES_BIT,
            VK_QUERY_PIPELINE_STATISTIC_INPUT_ASSEMBLY_PRIMITIVES_BIT,
            VK_QUERY_PIPELINE_STATISTIC_VERTEX_SHADER_INVOCATIONS_BIT,
            VK_QUERY_PIPELINE_STATISTIC_CLIPPING_INVOCATIONS_BIT,
            VK_QUERY_PIPELINE_STATISTIC_CLIPPING_PRIMITIVES_BIT,
            VK_QUERY_PIPELINE_STATISTIC_FRAGMENT_SHADER_INVOCATIONS_BIT] @
           (if tessellationShader (deviceFeatures s)
            then [VK_QUERY_PIPELINE_STATISTIC_TESSELLATION_CONTROL_SHADER_PATCHES_BIT,
                  VK_QUERY_PIPELINE_STATISTIC_TESSELLATION_EVALUATION_SHADER_INVOCATIONS_BIT]
            else [])"
    unfolding m by (simp add: all_pipeline_statistic_bits_def bits)
  show ?thesis
    using ok ty cnt m f n st by (simp add: s')
qed

theorem createQueryPool_sized_witness:
  "\<not> isl (createQueryPool driver_ok (VulkanExample_new features_all 2 [] [])) \<and>
   queryCount (the (queryPool (projr
     (createQueryPool driver_ok (VulkanExample_new features_all 2 [] []))))) = 8 \<and>
   length (pipelineStats (projr
     (createQueryPool driver_ok (VulkanExample_new features_all 2 [] [])))) = 8 \<and>
   \<not> isl (createQueryPool driver_ok (VulkanExample_new features_statistics_only 2 [] [])) \<and>
   length (pipelineStatNames (projr
     (createQueryPool driver_ok (VulkanExample_new features_statistics_only 2 [] [])))) = 6"
proof -
  let ?r8 = "createQueryPool driver_ok (VulkanExample_new features_all 2 [] [])"
  let ?r6 = "createQueryPool driver_ok (VulkanExample_new features_statistics_only 2 [] [])"
  have a: "\<not> isl ?r8" and b: "\<not> isl ?r6"
    by (simp_all add: createQueryPool_def Let_def VK_CHECK_RESULT_def driver_ok_def)
  have f: "tessellationShader (deviceFeatures (VulkanExample_new features_all 2 [] []))"
    "\<not> tessellationShader (deviceFeatures (VulkanExample_new features_statistics_only 2 [] []))"
    by (simp_all add: VulkanExample_new_def features_all_def features_statistics_only_def)
  from a have a': "?r8 = Inr (projr ?r8)" by (cases ?r8) simp_all
  from b have b': "?r6 = Inr (projr ?r6)" by (cases ?r6) simp_all
  show ?thesis
    using a b createQueryPool_sized [OF a'] createQueryPool_sized [OF b'] f by simp
qed

text \<open>
  Claim C10. The pipeline \<open>createPipelines\<close> creates has alpha blending enabled
  (source alpha, one minus source alpha, added) and depth writes disabled when
  \<open>blending\<close> is set, and blending disabled and depth writes enabled when it is not.
\<close>

theorem createPipelines_blending:
  assumes "createPipelines drv s = Inr s'"
  shows "pipeline s' = Some (pipelineCI s) \<and>
         last (calls s') = vkCreateGraphicsPipelines (pipelineCI s) \<and>
         map blendEnable (pColorBlendState (pipelineCI s)) = [blending s] \<and>
         depthWriteEnable (pDepthStencilState (pipelineCI s)) = (\<not> blending s) \<and>
         depthTestEnable (pDepthStencilState (pipelineCI s)) \<and>
         (blending s \<longrightarrow>
            map srcColorBlendFactor (pColorBlendState (pipelineCI s)) = [VK_BLEND_FACTOR_SRC_ALPHA] \<and>
            map dstColorBlendFactor (pColorBlendState (pipelineCI s)) =
              [VK_BLEND_FACTOR_ONE_MINUS_SRC_ALPHA] \<and>
            map colorBlendOp (pColorBlendState (pipelineCI s)) = [VK_BLEND_OP_ADD])"
proof -
  have "pipeline s' = Some (pipelineCI s)"
    and "last (calls s') = vkCreateGraphicsPipelines (pipelineCI s)"
    by (simp_all add: createPipelines_shape [OF assms] createPipelines_calls_def)
  moreover have "map blendEnable (pColorBlendState (pipelineCI s)) = [blending s]"
    and "depthWriteEnable (pDepthStencilState (pipelineCI s)) = (\<not> blending s)"
    and "depthTestEnable (pDepthStencilState (pipelineCI s))"
    by (simp_all add: pipelineCI_def Let_def pipelineColorBlendAttachmentState_def
        pipelineDepthStencilStateCreateInfo_def)
  moreover have "blending s \<longrightarrow>
            map srcColorBlendFactor (pColorBlendState (pipelineCI s)) = [VK_BLEND_FACTOR_SRC_ALPHA] \<and>
            map dstColorBlendFactor (pColorBlendState (pipelineCI s)) =
              [VK_BLEND_FACTOR_ONE_MINUS_SRC_ALPHA] \<and>
            map colorBlendOp (pColorBlendState (pipelineCI s)) = [VK_BLEND_OP_ADD]"
    by (simp add: pipelineCI_def Let_def pipelineColorBlendAttachmentState_def)
  ultimately show ?thesis by blast
qed

theorem createPipelines_blending_witness:
  "blending ((VulkanExample_new features_all 2 [] [])\<lparr>blending := True\<rparr>) \<and>
   \<not> isl (createPipelines driver_ok ((VulkanExample_new features_all 2 [] [])\<lparr>blending := True\<rparr>)) \<and>
   map blendEnable (pColorBlendState (the (pipeline (projr
     (createPipelines driver_ok ((VulkanExample_new features_all 2 [] [])\<lparr>blending := True\<rparr>)))))) =
     [True] \<and>
   \<not> depthWriteEnable (pDepthStencilState (the (pipeline (projr
     (createPipelines driver_ok ((VulkanExample_new features_all 2 [] [])\<lparr>blending := True\<rparr>))))))"
proof -
  let ?s = "(VulkanExample_new features_all 2 [] [])\<lparr>blending := True\<rparr>"
  let ?r = "createPipelines driver_ok ?s"
  have a: "\<not> isl ?r"
    by (simp add: createPipelines_def Let_def VK_CHECK_RESULT_def driver_ok_def
        VulkanExample_new_def emit_def)
  then have a': "?r = Inr (projr ?r)" by (cases ?r) simp_all
  have b: "blending ?s" by simp
  show ?thesis
    using a b createPipelines_blending [OF a'] by simp
qed

text \<open>
  Claim C6. There is one fatal feature check. \<open>getEnabledFeatures\<close> stops the program
  through \<open>exitFatal\<close> with \<open>VK_ERROR_FEATURE_NOT_PRESENT\<close> exactly when the device lacks
  \<open>pipelineStatisticsQuery\<close>; a missing \<open>fillModeNonSolid\<close> or \<open>tessellationShader\<close>
  does not stop it, the feature only stays as it was in \<open>enabledFeatures\<close>; and no other
  operation ends in \<open>exitFatal\<close>, whatever the driver returns.
\<close>

theorem single_fatal_feature_check:
  "((getEnabledFeatures s =
       Inl (ExitFatal ''Selected GPU does not support pipeline statistics!''
              VK_ERROR_FEATURE_NOT_PRESENT)) \<longleftrightarrow>
     \<not> pipelineStatisticsQuery (deviceFeatures s)) \<and>
   (pipelineStatisticsQuery (deviceFeatures s) \<longrightarrow>
      getEnabledFeatures s =
        Inr (s\<lparr>enabledFeatures :=
                 \<lparr>pipelineStatisticsQuery = True,
                  fillModeNonSolid =
                    (fillModeNonSolid (deviceFeatures s) \<or> fillModeNonSolid (enabledFeatures s)),
                  tessellationShader =
                    (tessellationShader (deviceFeatures s) \<or>
                     tessellationShader (enabledFeatures s))\<rparr>\<rparr>)) \<and>
   (\<forall>drv fi ui e.
      createQueryPool drv s = Inl e \<or> createDescriptors drv s = Inl e \<or>
      createPipelines drv s = Inl e \<or> prepare drv s = Inl e \<or>
      render drv fi s = Inl e \<or> OnUpdateUIOverlay drv ui s = Inl e \<longrightarrow>
      (\<forall>msg code. e \<noteq> ExitFatal msg code))"
proof (intro conjI allI impI)
  show "(getEnabledFeatures s =
       Inl (ExitFatal ''Selected GPU does not support pipeline statistics!''
              VK_ERROR_FEATURE_NOT_PRESENT)) \<longleftrightarrow>
     \<not> pipelineStatisticsQuery (deviceFeatures s)"
    by (simp add: getEnabledFeatures_def Let_def)
next
  assume "pipelineStatisticsQuery (deviceFeatures s)"
  then show "getEnabledFeatures s =
        Inr (s\<lparr>enabledFeatures :=
                 \<lparr>pipelineStatisticsQuery = True,
                  fillModeNonSolid =
                    (fillModeNonSolid (deviceFeatures s) \<or> fillModeNonSolid (enabledFeatures s)),
                  tessellationShader =
                    (tessellationShader (deviceFeatures s) \<or>
                     tessellationShader (enabledFeatures s))\<rparr>\<rparr>)"
    by (cases "enabledFeatures s") (simp add: getEnabledFeatures_def Let_def)
next
  fix drv fi ui e msg code
  assume "createQueryPool drv s = Inl e \<or> createDescriptors drv s = Inl e \<or>
      createPipelines drv s = Inl e \<or> prepare drv s = Inl e \<or>
      render drv fi s = Inl e \<or> OnUpdateUIOverlay drv ui s = Inl e"
  then have "(\<exists>r. e = CheckResult r) \<or> e = OutOfRange"
    by (elim disjE)
       (auto dest: createQueryPool_Inl createDescriptors_Inl createPipelines_Inl prepare_Inl
          render_Inl update_Inl)
  then show "e \<noteq> ExitFatal msg code" by auto
qed

theorem single_fatal_feature_check_witness:
  "getEnabledFeatures (VulkanExample_new features_none 2 [] []) =
     Inl (ExitFatal ''Selected GPU does not support pipeline statistics!'' (- 8)) \<and>
   \<not> isl (getEnabledFeatures (VulkanExample_new features_statistics_only 2 [] [])) \<and>
   \<not> fillModeNonSolid (enabledFeatures (projr
       (getEnabledFeatures (VulkanExample_new features_statistics_only 2 [] [])))) \<and>
   createPipelines (\<lambda>c. - 1) (VulkanExample_new features_statistics_only 2 [] []) =
     Inl (CheckResult (- 1))"
proof -
  let ?n = "VulkanExample_new features_none 2 [] []"
  let ?s = "VulkanExample_new features_statistics_only 2 [] []"
  have a: "\<not> pipelineStatisticsQuery (deviceFeatures ?n)"
    by (simp add: VulkanExample_new_def features_none_def)
  have b: "pipelineStatisticsQuery (deviceFeatures ?s)"
    "\<not> fillModeNonSolid (deviceFeatures ?s)" "\<not> fillModeNonSolid (enabledFeatures ?s)"
    by (simp_all add: VulkanExample_new_def features_statistics_only_def)
  have c: "createPipelines (\<lambda>c. - 1) ?s = Inl (CheckResult (- 1))"
    by (simp add: createPipelines_def VK_CHECK_RESULT_def VulkanExample_new_def VK_SUCCESS_def)
  from single_fatal_feature_check [of ?n] a
  have 1: "getEnabledFeatures ?n =
     Inl (ExitFatal ''Selected GPU does not support pipeline statistics!'' (- 8))"
    by (simp add: VK_ERROR_FEATURE_NOT_PRESENT_def)
  from single_fatal_feature_check [of ?s] b
  have 2: "getEnabledFeatures ?s = Inr (?s\<lparr>enabledFeatures :=
                 \<lparr>pipelineStatisticsQuery = True, fillModeNonSolid = False,
                  tessellationShader =
                    (tessellationShader (deviceFeatures ?s) \<or>
                     tessellationShader (enabledFeatures ?s))\<rparr>\<rparr>)"
    by simp
  show ?thesis
    using 1 c by (simp add: 2)
qed

lemma recordCommands_Inr:
  "recordCommands s = Inr cmds \<Longrightarrow>
   cmds = [vkCmdResetQueryPool 0 (length (pipelineStats s) mod 2 ^ 32),
           vkCmdBeginRenderPass, vkCmdSetViewport, vkCmdSetScissor] @
          [vkCmdBeginQuery 0 0] @
          ([vkCmdBindDescriptorSets, vkCmdBindPipeline (pipeline s),
            vkCmdBindPipeline (pipeline s), vkCmdBindDescriptorSets,
            bindBuffers (nat (models_objectIndex s))] @
           draw_grid (gridSize s) (nat (models_objectIndex s)) 0) @
          [vkCmdEndQuery 0] @ [UIOverlay_draw, vkCmdEndRenderPass]"
  by (simp add: recordCommands_def split: if_splits)

lemma grid_cmd_kinds:
  "is_grid_cmd c \<Longrightarrow> \<not> is_bind c \<and> \<not> is_query_cmd c \<and> c \<noteq> UIOverlay_draw \<and>
     c \<noteq> vkCmdBeginRenderPass \<and> c \<noteq> vkCmdEndRenderPass"
  by (cases c) simp_all

lemma draw_grid_no [simp]:
  "filter is_bind (draw_grid g m y) = []"
  "filter is_query_cmd (draw_grid g m y) = []"
  "UIOverlay_draw \<notin> set (draw_grid g m y)"
  "vkCmdBeginRenderPass \<notin> set (draw_grid g m y)"
  "vkCmdEndRenderPass \<notin> set (draw_grid g m y)"
  "vkCmdBeginQuery q f \<notin> set (draw_grid g m y)"
  "vkCmdEndQuery q \<notin> set (draw_grid g m y)"
  using draw_grid_grid_cmds [of g m y] grid_cmd_kinds
  by (auto intro!: filter_none)

lemma render_submits:
  assumes "render drv fi s = Inr s'"
  shows "\<exists>cmds. recordCommands s = Inr cmds \<and> submitted (calls s') = submitted (calls s) @ [cmds]"
proof -
  from render_shape [OF assms] obtain cmds where "recordCommands s = Inr cmds"
    and "calls s' = calls s @ render_calls fi s cmds"
    by auto
  then show ?thesis
    by (simp add: render_calls_kinds)
qed

text \<open>
  Claim C2. In the command buffer \<open>render\<close> records, the draw loop lies between the
  begin and the end of query 0: \<open>vkCmdBeginQuery\<close> comes before every bind and every
  draw, \<open>vkCmdEndQuery\<close> comes after the last of the \<open>gridSize * gridSize\<close> draws, and
  the overlay is drawn after the query has ended.
\<close>

theorem render_query_brackets_draws:
  assumes "render drv fi s = Inr s'"
  shows "\<exists>cmds pre mid post.
           submitted (calls s') = submitted (calls s) @ [cmds] \<and>
           cmds = pre @ [vkCmdBeginQuery 0 0] @ mid @ [vkCmdEndQuery 0] @ post \<and>
           filter is_draw pre = [] \<and> filter is_bind pre = [] \<and>
           filter is_draw post = [] \<and> filter is_bind post = [] \<and>
           filter is_query_cmd (pre @ mid @ post) = [] \<and>
           length (filter is_bind mid) = 5 \<and>
           length (filter is_draw mid) = nat (gridSize s) * nat (gridSize s) \<and>
           UIOverlay_draw \<in> set post \<and> UIOverlay_draw \<notin> set mid"
proof -
  from render_submits [OF assms] obtain cmds where c: "recordCommands s = Inr cmds"
    and s: "submitted (calls s') = submitted (calls s) @ [cmds]"
    by blast
  let ?pre = "[vkCmdResetQueryPool 0 (length (pipelineStats s) mod 2 ^ 32),
           vkCmdBeginRenderPass, vkCmdSetViewport, vkCmdSetScissor]"
  let ?mid = "[vkCmdBindDescriptorSets, vkCmdBindPipeline (pipeline s),
            vkCmdBindPipeline (pipeline s), vkCmdBindDescriptorSets,
            bindBuffers (nat (models_objectIndex s))] @
           draw_grid (gridSize s) (nat (models_objectIndex s)) 0"
  let ?post = "[UIOverlay_draw, vkCmdEndRenderPass]"
  have "cmds = ?pre @ [vkCmdBeginQuery 0 0] @ ?mid @ [vkCmdEndQuery 0] @ ?post"
    by (rule recordCommands_Inr [OF c])
  moreover have "length (filter is_draw ?mid) = nat (gridSize s) * nat (gridSize s)"
    by (simp add: filter_is_draw_grid)
  moreover have "length (filter is_bind ?mid) = 5" "filter is_query_cmd (?pre @ ?mid @ ?post) = []"
    "UIOverlay_draw \<notin> set ?mid"
    by simp_all
  moreover have "filter is_draw ?pre = []" "filter is_bind ?pre = []"
    "filter is_draw ?post = []" "filter is_bind ?post = []" "UIOverlay_draw \<in> set ?post"
    by simp_all
  ultimately show ?thesis
    using s by blast
qed

lemma example_state_running:
  "start driver_ok features_all 2 [] [] = Inr example_state" "running example_state"
  "deviceFeatures example_state = features_all"
  "gridSize example_state = 3" "models_objectIndex example_state = 3"
proof -
  have "\<not> isl (start driver_ok features_all 2 [] [])"
    by (rule start_total) (simp add: features_all_def)
  then show s: "start driver_ok features_all 2 [] [] = Inr example_state"
    unfolding example_state_def by (cases "start driver_ok features_all 2 [] []") simp_all
  from start_shape [OF s] show "running example_state"
    "deviceFeatures example_state = features_all"
    "gridSize example_state = 3" "models_objectIndex example_state = 3"
    by simp_all
qed

lemma render_Inr_projr: "running s \<Longrightarrow> render driver_ok fi s = Inr (projr (render driver_ok fi s))"
  using render_total [of s fi] by (cases "render driver_ok fi s") simp_all

theorem render_query_brackets_draws_witness:
  "\<not> isl (render driver_ok frame_idle example_state) \<and>
   length (filter is_draw
     (last (submitted (calls (projr (render driver_ok frame_idle example_state)))))) = 9 \<and>
   filter is_query_cmd
     (last (submitted (calls (projr (render driver_ok frame_idle example_state))))) =
     [vkCmdBeginQuery 0 0, vkCmdEndQuery 0]"
proof -
  let ?s' = "projr (render driver_ok frame_idle example_state)"
  have r: "render driver_ok frame_idle example_state = Inr ?s'"
    by (rule render_Inr_projr) (rule example_state_running)
  from render_query_brackets_draws [OF r] obtain cmds pre mid post where
    s: "submitted (calls ?s') = submitted (calls example_state) @ [cmds]"
    and c: "cmds = pre @ [vkCmdBeginQuery 0 0] @ mid @ [vkCmdEndQuery 0] @ post"
    and f: "filter is_draw pre = []" "filter is_draw post = []"
      "filter is_query_cmd (pre @ mid @ post) = []"
      "length (filter is_draw mid) = nat (gridSize example_state) * nat (gridSize example_state)"
    by blast
  have "last (submitted (calls ?s')) = cmds"
    by (simp add: s)
  moreover have "length (filter is_draw cmds) = 9"
    using f by (simp add: c example_state_running)
  moreover have "filter is_query_cmd cmds = [vkCmdBeginQuery 0 0, vkCmdEndQuery 0]"
    using f by (simp add: c)
  ultimately show ?thesis
    using r by (metis isl_def sum.disc(2))
qed

lemma dropWhile_draw_grid [simp]:
  "\<not> is_grid_cmd a \<Longrightarrow>
   dropWhile (\<lambda>c. c \<noteq> a) (draw_grid g m y @ ys) = dropWhile (\<lambda>c. c \<noteq> a) ys"
  using draw_grid_grid_cmds [of g m y] by (intro dropWhile_append2) auto

lemma count_list_draw_grid [simp]:
  "\<not> is_grid_cmd a \<Longrightarrow> count_list (draw_grid g m y) a = 0"
  using draw_grid_grid_cmds [of g m y] by (auto simp: count_list_0_iff)

text \<open>
  Claim C3, as amended. The query lies inside the render pass, not around it: in the
  command buffer \<open>render\<close> records, \<open>vkCmdBeginRenderPass\<close> comes before
  \<open>vkCmdBeginQuery\<close> and \<open>vkCmdEndQuery\<close> comes before \<open>vkCmdEndRenderPass\<close>, each of the
  four commands being recorded once.
\<close>

theorem render_query_inside_render_pass:
  assumes "render drv fi s = Inr s'"
  shows "\<exists>cmds. submitted (calls s') = submitted (calls s) @ [cmds] \<and>
           recorded_before vkCmdBeginRenderPass (vkCmdBeginQuery 0 0) cmds \<and>
           recorded_before (vkCmdEndQuery 0) vkCmdEndRenderPass cmds \<and>
           \<not> recorded_before (vkCmdBeginQuery 0 0) vkCmdBeginRenderPass cmds \<and>
           \<not> recorded_before vkCmdEndRenderPass (vkCmdEndQuery 0) cmds \<and>
           count_list cmds vkCmdBeginRenderPass = 1 \<and> count_list cmds vkCmdEndRenderPass = 1 \<and>
           count_list cmds (vkCmdBeginQuery 0 0) = 1 \<and> count_list cmds (vkCmdEndQuery 0) = 1"
proof -
  from render_submits [OF assms] obtain cmds where c: "recordCommands s = Inr cmds"
    and s: "submitted (calls s') = submitted (calls s) @ [cmds]"
    by blast
  note e = recordCommands_Inr [OF c]
  have "recorded_before vkCmdBeginRenderPass (vkCmdBeginQuery 0 0) cmds"
    "recorded_before (vkCmdEndQuery 0) vkCmdEndRenderPass cmds"
    "\<not> recorded_before (vkCmdBeginQuery 0 0) vkCmdBeginRenderPass cmds"
    "\<not> recorded_before vkCmdEndRenderPass (vkCmdEndQuery 0) cmds"
    unfolding e recorded_before_def by simp_all
  moreover have "count_list cmds vkCmdBeginRenderPass = 1" "count_list cmds vkCmdEndRenderPass = 1"
    "count_list cmds (vkCmdBeginQuery 0 0) = 1" "count_list cmds (vkCmdEndQuery 0) = 1"
    unfolding e by simp_all
  ultimately show ?thesis
    using s by blast
qed

theorem render_query_inside_render_pass_witness:
  "\<not> isl (render driver_ok frame_idle example_state) \<and>
   recorded_before vkCmdBeginRenderPass (vkCmdBeginQuery 0 0)
     (last (submitted (calls (projr (render driver_ok frame_idle example_state))))) \<and>
   recorded_before (vkCmdEndQuery 0) vkCmdEndRenderPass
     (last (submitted (calls (projr (render driver_ok frame_idle example_state)))))"
proof -
  let ?s' = "projr (render driver_ok frame_idle example_state)"
  have r: "render driver_ok frame_idle example_state = Inr ?s'"
    by (rule render_Inr_projr) (rule example_state_running)
  from render_query_inside_render_pass [OF r] obtain cmds where
    "submitted (calls ?s') = submitted (calls example_state) @ [cmds]"
    "recorded_before vkCmdBeginRenderPass (vkCmdBeginQuery 0 0) cmds"
    "recorded_before (vkCmdEndQuery 0) vkCmdEndRenderPass cmds"
    by blast
  then show ?thesis
    using r by (metis isl_def last_snoc sum.disc(2))
qed

text \<open>
  The claim as stated, that the query begins before the render pass and ends after it,
  fails on the first frame of the example.
\<close>

theorem render_query_around_render_pass_counterexample:
  "\<not> recorded_before (vkCmdBeginQuery 0 0) vkCmdBeginRenderPass
       (last (submitted (calls (projr (render driver_ok frame_idle example_state))))) \<and>
   \<not> recorded_before vkCmdEndRenderPass (vkCmdEndQuery 0)
       (last (submitted (calls (projr (render driver_ok frame_idle example_state)))))"
proof -
  let ?s' = "projr (render driver_ok frame_idle example_state)"
  have r: "render driver_ok frame_idle example_state = Inr ?s'"
    by (rule render_Inr_projr) (rule example_state_running)
  from render_submits [OF r] obtain cmds where c: "recordCommands example_state = Inr cmds"
    and s: "submitted (calls ?s') = submitted (calls example_state) @ [cmds]"
    by blast
  note e = recordCommands_Inr [OF c]
  have "\<not> recorded_before (vkCmdBeginQuery 0 0) vkCmdBeginRenderPass cmds"
    "\<not> recorded_before vkCmdEndRenderPass (vkCmdEndQuery 0) cmds"
    unfolding e recorded_before_def by simp_all
  then show ?thesis
    by (simp add: s)
qed

lemma program_Inr_projr:
  assumes "program drv features frames assets shaders acts = Inr s"
  shows "\<not> isl (program drv features frames assets shaders acts)"
  using assms by simp

lemma example_program:
  "program driver_ok features_all 2 [] [] acts = run acts example_state"
  by (simp add: program_def example_state_running)

lemma run_example_total:
  "running s \<Longrightarrow> \<forall>a \<in> set acts. (\<exists>fi. a = Render driver_ok fi) \<or> (\<exists>ui. a = UpdateUIOverlay driver_ok ui)
   \<Longrightarrow> \<not> isl (run acts s)"
proof (induction acts arbitrary: s)
  case Nil
  then show ?case by simp
next
  case (Cons a acts)
  from Cons.prems(2) have t: "\<not> isl (step a s)"
    using render_total [OF Cons.prems(1)] update_total [OF Cons.prems(1)] by auto
  then obtain s1 where s1: "step a s = Inr s1"
    by (cases "step a s") simp_all
  have "running s1"
  proof (cases a)
    case (Render drv fi)
    with s1 render_step [OF Cons.prems(1)] show ?thesis by auto
  next
    case (UpdateUIOverlay drv ui)
    with s1 update_step [OF Cons.prems(1)] show ?thesis by auto
  qed
  from Cons.IH [OF this] Cons.prems(2) show ?case
    by (simp add: s1)
qed

lemma example_program_Inr:
  "\<forall>a \<in> set acts. (\<exists>fi. a = Render driver_ok fi) \<or> (\<exists>ui. a = UpdateUIOverlay driver_ok ui) \<Longrightarrow>
   program driver_ok features_all 2 [] [] acts =
     Inr (projr (program driver_ok features_all 2 [] [] acts))"
  using run_example_total [OF example_state_running(2), of acts]
  by (cases "program driver_ok features_all 2 [] [] acts") (simp_all add: example_program)

text \<open>
  Claim C4. The statistics are read back after submission, in a fixed size. Of the
  calls a run has made, the read-backs and the submissions alternate, beginning with a
  read-back: so every \<open>vkGetQueryPoolResults\<close> but the first directly follows the
  \<open>submitFrame\<close> of the frame before, whose command buffer holds the begin and the end
  of query 0, and precedes the \<open>submitFrame\<close> of its own frame. Every read-back asks
  for one query, query 0, as 64-bit values with stride 8, and for
  \<open>pipelineStats.size() * 8\<close> bytes.
\<close>

theorem readback_follows_submission:
  assumes "program drv features frames assets shaders acts = Inr s"
  shows "\<exists>fs. length fs = length (filter is_Render acts) \<and>
           filter is_readback_or_submit (calls s) =
             concat (map (\<lambda>cmds. [vkGetQueryPoolResults 0 1 (length (pipelineStats s) * 8) 8
                                      VK_QUERY_RESULT_64_BIT,
                                    submitFrame cmds]) fs) \<and>
           (\<forall>cmds \<in> set fs. vkCmdBeginQuery 0 0 \<in> set cmds \<and> vkCmdEndQuery 0 \<in> set cmds) \<and>
           length (pipelineStats s) = (if tessellationShader features then 8 else 6)"
proof -
  from program_reach [OF assms] obtain fs where r: "running s" and d: "deviceFeatures s = features"
    and n: "length fs = length (filter is_Render acts)"
    and f: "filter is_readback_or_submit (calls s) =
              concat (map (\<lambda>cmds. [vkGetQueryPoolResults 0 1 (length (pipelineStats s) * 8) 8
                                        VK_QUERY_RESULT_64_BIT,
                                      submitFrame cmds]) fs)"
    and c: "\<forall>cmds \<in> set fs. \<exists>t. running t \<and> deviceFeatures t = features \<and>
                length (pipelineStats t) = length (pipelineStats s) \<and>
                recordCommands t = Inr cmds"
    by blast
  have "vkCmdBeginQuery 0 0 \<in> set cmds \<and> vkCmdEndQuery 0 \<in> set cmds" if "cmds \<in> set fs" for cmds
  proof -
    from c that obtain t where "recordCommands t = Inr cmds" by blast
    from recordCommands_Inr [OF this] show ?thesis by simp
  qed
  moreover from r d have "length (pipelineStats s) = (if tessellationShader features then 8 else 6)"
    by (simp add: running_def)
  ultimately show ?thesis
    using n f by blast
qed

theorem readback_follows_submission_witness:
  "\<not> isl (program driver_ok features_all 2 [] []
            [Render driver_ok frame_idle, UpdateUIOverlay driver_ok ui_blending_clicked,
             Render driver_ok frame_idle]) \<and>
   map (\<lambda>c. case c of submitFrame cmds \<Rightarrow> 0 | vkGetQueryPoolResults a b n d e \<Rightarrow> n | _ \<Rightarrow> 1)
     (filter is_readback_or_submit
        (calls (projr (program driver_ok features_all 2 [] []
            [Render driver_ok frame_idle, UpdateUIOverlay driver_ok ui_blending_clicked,
             Render driver_ok frame_idle])))) =
     [64, 0, 64, 0]"
proof -
  let ?acts = "[Render driver_ok frame_idle, UpdateUIOverlay driver_ok ui_blending_clicked,
             Render driver_ok frame_idle]"
  let ?s = "projr (program driver_ok features_all 2 [] [] ?acts)"
  have p: "program driver_ok features_all 2 [] [] ?acts = Inr ?s"
    by (rule example_program_Inr) simp
  have t: "tessellationShader features_all"
    by (simp add: features_all_def)
  from readback_follows_submission [OF p] obtain fs where
    n0: "length fs = length (filter is_Render ?acts)"
    and f: "filter is_readback_or_submit (calls ?s) =
             concat (map (\<lambda>cmds. [vkGetQueryPoolResults 0 1 (length (pipelineStats ?s) * 8) 8
                                      VK_QUERY_RESULT_64_BIT,
                                    submitFrame cmds]) fs)"
    and l0: "length (pipelineStats ?s) = (if tessellationShader features_all then 8 else 6)"
    by blast
  from n0 have n: "length fs = 2" by simp
  from l0 t have l: "length (pipelineStats ?s) = 8" by simp
  from n obtain a b where fs: "fs = [a, b]"
    by (auto simp: length_Suc_conv numeral_2_eq_2)
  have "\<not> isl (program driver_ok features_all 2 [] [] ?acts)"
    using p by (metis isl_def sum.disc(2))
  then show ?thesis
    unfolding f l fs by simp
qed

text \<open>
  Claim C9. Wireframe and tessellation are only ever on when the device supports
  them: in every state a run reaches, \<open>wireframe\<close> implies \<open>fillModeNonSolid\<close> and
  \<open>tessellation\<close> implies \<open>tessellationShader\<close>, and of the pipelines the run has created
  none has polygon mode \<open>VK_POLYGON_MODE_LINE\<close> without \<open>fillModeNonSolid\<close>, and none has
  a patch list topology, a tessellation state or a tessellation shader stage without
  \<open>tessellationShader\<close>.
\<close>

theorem features_guard_pipeline_modes:
  assumes "program drv features frames assets shaders acts = Inr s"
  shows "deviceFeatures s = features \<and>
         (wireframe s \<longrightarrow> fillModeNonSolid features) \<and>
         (tessellation s \<longrightarrow> tessellationShader features) \<and>
         pipelines_created (calls s) \<noteq> [] \<and>
         (\<forall>ci \<in> set (pipelines_created (calls s)).
            (polygonMode (pRasterizationState ci) = VK_POLYGON_MODE_LINE \<longrightarrow>
               fillModeNonSolid features) \<and>
            (uses_tessellation ci \<longrightarrow> tessellationShader features))"
proof -
  from program_reach [OF assms] have r: "running s" and d: "deviceFeatures s = features"
    and c: "\<forall>ci \<in> set (pipelines_created (calls s)).
             \<exists>t. running t \<and> deviceFeatures t = features \<and> ci = pipelineCI t"
    by blast+
  have g: "(polygonMode (pRasterizationState (pipelineCI t)) = VK_POLYGON_MODE_LINE \<longrightarrow>
               fillModeNonSolid features) \<and>
            (uses_tessellation (pipelineCI t) \<longrightarrow> tessellationShader features)"
    if "running t" "deviceFeatures t = features" for t
    using that by (auto simp: pipelineCI_polygonMode pipelineCI_uses_tessellation running_def
        split: if_splits)
  from assms obtain s0 where a: "start drv features frames assets shaders = Inr s0"
    and b: "run acts s0 = Inr s"
    by (auto simp: program_def bind_result_eq_Inr)
  from start_shape [OF a] have "running s0" "pipelines_created (calls s0) = [pipelineCI s0]"
    by simp_all
  with run_reach [OF _ b] have ne: "pipelines_created (calls s) \<noteq> []"
    by auto
  from r d have "(wireframe s \<longrightarrow> fillModeNonSolid features) \<and>
         (tessellation s \<longrightarrow> tessellationShader features)"
    by (simp add: running_def)
  moreover have "\<forall>ci \<in> set (pipelines_created (calls s)).
            (polygonMode (pRasterizationState ci) = VK_POLYGON_MODE_LINE \<longrightarrow>
               fillModeNonSolid features) \<and>
            (uses_tessellation ci \<longrightarrow> tessellationShader features)"
  proof
    fix ci
    assume "ci \<in> set (pipelines_created (calls s))"
    with c obtain t where "running t" "deviceFeatures t = features" "ci = pipelineCI t"
      by blast
    with g [of t] show "(polygonMode (pRasterizationState ci) = VK_POLYGON_MODE_LINE \<longrightarrow>
               fillModeNonSolid features) \<and>
            (uses_tessellation ci \<longrightarrow> tessellationShader features)"
      by simp
  qed
  ultimately show ?thesis
    using d ne by simp
qed

lemma program_ok_Inr:
  assumes "pipelineStatisticsQuery features"
    and "\<forall>a \<in> set acts. (\<exists>fi. a = Render driver_ok fi) \<or> (\<exists>ui. a = UpdateUIOverlay driver_ok ui)"
  shows "program driver_ok features frames assets shaders acts =
     Inr (projr (program driver_ok features frames assets shaders acts))"
proof -
  from start_total [OF assms(1), of frames assets shaders] obtain s0 where
    s0: "start driver_ok features frames assets shaders = Inr s0"
    by (cases "start driver_ok features frames assets shaders") simp_all
  from start_shape [OF s0] have "running s0" by simp
  from run_example_total [OF this assms(2)] show ?thesis
    by (cases "run acts s0") (simp_all add: program_def s0)
qed

lemma pushed_positions_append [simp]:
  "pushed_positions (xs @ ys) = pushed_positions xs @ pushed_positions ys"
  by (induction xs rule: pushed_positions.induct) simp_all

lemma pushed_positions_concat:
  "pushed_positions (concat xss) = concat (map pushed_positions xss)"
  by (induction xss) simp_all

lemma pushed_positions_draw_grid:
  "pushed_positions (draw_grid g m 0) =
     concat (map (\<lambda>y. map (\<lambda>x. grid_pos g x y) [0..g - 1]) [0..g - 1])"
proof -
  have a: "concat (map pushed_positions (map (\<lambda>x'. [vkCmdPushConstants (p x'), draw m]) xs)) =
      map p xs" for p :: "int \<Rightarrow> vec3" and xs
    by (induction xs) simp_all
  have "pushed_positions (draw_row g m y 0) = map (\<lambda>x. grid_pos g x y) [0..g - 1]" for y
    unfolding draw_row_eq pushed_positions_concat by (rule a)
  then show ?thesis
    unfolding draw_grid_eq pushed_positions_concat by (simp add: comp_def)
qed

lemma sum_list_concat_rat:
  "sum_list (concat xss) = sum_list (map sum_list xss)" for xss :: "rat list list"
  by (induction xss) simp_all

lemma sum_list_upto_affine:
  "0 \<le> n \<Longrightarrow>
   sum_list (map (\<lambda>x. (of_int x - c) * k) [0..n - 1]) =
     (of_int n * (of_int n - 1) / 2 - of_int n * c) * (k :: rat)"
proof (induction n rule: int_ge_induct)
  case base
  then show ?case by simp
next
  case (step i)
  have "[0..i + 1 - 1] = [0..i - 1] @ [i]"
    using step.hyps by (simp add: upto_rec2)
  then show ?case
    using step.IH by (simp add: field_simps)
qed

lemma grid_centre:
  assumes "0 \<le> g"
  shows "sum_list (map fst (pushed_positions (draw_grid g m 0))) = of_int (g * g) * (- 5 / 4)"
    and "sum_list (map (fst \<circ> snd) (pushed_positions (draw_grid g m 0))) = 0"
    and "sum_list (map (snd \<circ> snd) (pushed_positions (draw_grid g m 0))) = of_int (g * g) * (- 5 / 4)"
proof -
  define f :: "int \<Rightarrow> rat" where "f x = (of_int x - of_int g / 2) * (5 / 2)" for x
  have pos: "grid_pos g x y = (f x, 0, f y)" for x y
    by (simp add: grid_pos_def f_def)
  have row: "sum_list (map f [0..g - 1]) = of_int g * (- 5 / 4)"
    unfolding f_def
    using sum_list_upto_affine [OF assms, of "of_int g / 2" "5 / 2"] by (simp add: field_simps)
  have len: "length [0..g - 1] = nat g"
    using assms by simp
  have n: "of_nat (nat g) = (of_int g :: rat)"
    using assms by simp
  have p: "pushed_positions (draw_grid g m 0) =
      concat (map (\<lambda>y. map (\<lambda>x. (f x, 0, f y)) [0..g - 1]) [0..g - 1])"
    unfolding pushed_positions_draw_grid pos ..
  have "sum_list (map fst (pushed_positions (draw_grid g m 0))) =
      sum_list (map (\<lambda>y. sum_list (map f [0..g - 1])) [0..g - 1])"
    unfolding p by (simp add: map_concat sum_list_concat_rat comp_def)
  also have "\<dots> = of_int g * (of_int g * (- 5 / 4))"
    unfolding row sum_list_triv len n by simp
  finally show "sum_list (map fst (pushed_positions (draw_grid g m 0))) = of_int (g * g) * (- 5 / 4)"
    by simp
  show "sum_list (map (fst \<circ> snd) (pushed_positions (draw_grid g m 0))) = 0"
    unfolding p by (simp add: map_concat sum_list_concat_rat comp_def)
  have "sum_list (map (snd \<circ> snd) (pushed_positions (draw_grid g m 0))) =
      sum_list (map (\<lambda>y. of_nat (nat g) * f y) [0..g - 1])"
    unfolding p by (simp add: map_concat sum_list_concat_rat comp_def sum_list_triv len)
  also have "\<dots> = of_int g * (of_int g * (- 5 / 4))"
    unfolding n sum_list_const_mult row ..
  finally show "sum_list (map (snd \<circ> snd) (pushed_positions (draw_grid g m 0))) =
      of_int (g * g) * (- 5 / 4)"
    by simp
qed

lemma filter_grid_cmds_draw_grid [simp]:
  "filter is_grid_cmd (draw_grid g m y) = draw_grid g m y"
  using draw_grid_grid_cmds [of g m y] by (simp add: filter_id_conv)

text \<open>
  Claim C7, as amended. Each frame draws a grid of the selected model: in any state a
  run reaches, \<open>gridSize\<close> lies between 1 and 10 (the slider, as the framework is
  modelled, keeps it there) and the selected index is inside \<open>models.objects\<close>; the
  command buffer of the frame holds, row by row, a push constant with the position
  \<open>((x - gridSize / 2) * 2.5, 0, (y - gridSize / 2) * 2.5)\<close> followed by the draw of the
  selected model, for every \<open>x\<close> and \<open>y\<close> from 0 to \<open>gridSize - 1\<close>: \<open>gridSize * gridSize\<close>
  draws, between 1 and 100. The positions are 2.5 apart; their mean is
  \<open>(-1.25, 0, -1.25)\<close>, half a cell from the origin.
\<close>

theorem render_draws_grid:
  assumes "program drv0 features frames assets shaders acts = Inr s"
    and "render drv fi s = Inr s'"
  shows "\<exists>cmds. submitted (calls s') = submitted (calls s) @ [cmds] \<and>
           1 \<le> gridSize s \<and> gridSize s \<le> 10 \<and>
           0 \<le> models_objectIndex s \<and> models_objectIndex s < int (length (models_objects s)) \<and>
           filter is_grid_cmd cmds =
             concat (map (\<lambda>y. concat (map (\<lambda>x.
               [vkCmdPushConstants ((of_int x - of_int (gridSize s) / 2) * (5 / 2), 0,
                                    (of_int y - of_int (gridSize s) / 2) * (5 / 2)),
                draw (nat (models_objectIndex s))]) [0..gridSize s - 1])) [0..gridSize s - 1]) \<and>
           length (filter is_draw cmds) = nat (gridSize s * gridSize s) \<and>
           1 \<le> length (filter is_draw cmds) \<and> length (filter is_draw cmds) \<le> 100 \<and>
           sum_list (map fst (pushed_positions cmds)) =
             of_int (gridSize s * gridSize s) * (- 5 / 4) \<and>
           sum_list (map (fst \<circ> snd) (pushed_positions cmds)) = 0 \<and>
           sum_list (map (snd \<circ> snd) (pushed_positions cmds)) =
             of_int (gridSize s * gridSize s) * (- 5 / 4)"
proof -
  from program_reach [OF assms(1)] have r: "running s" by blast
  then have g: "1 \<le> gridSize s" "gridSize s \<le> 10"
    and m: "0 \<le> models_objectIndex s" "models_objectIndex s < int (length (models_objects s))"
    by (simp_all add: running_def)
  from render_submits [OF assms(2)] obtain cmds where c: "recordCommands s = Inr cmds"
    and s: "submitted (calls s') = submitted (calls s) @ [cmds]"
    by blast
  note e = recordCommands_Inr [OF c]
  let ?g = "gridSize s" and ?m = "nat (models_objectIndex s)"
  have f: "filter is_grid_cmd cmds = draw_grid ?g ?m 0"
    unfolding e by simp
  have grid: "draw_grid ?g ?m 0 =
             concat (map (\<lambda>y. concat (map (\<lambda>x.
               [vkCmdPushConstants ((of_int x - of_int ?g / 2) * (5 / 2), 0,
                                    (of_int y - of_int ?g / 2) * (5 / 2)),
                draw ?m]) [0..?g - 1])) [0..?g - 1])"
    unfolding draw_grid_eq draw_row_eq grid_pos_def ..
  have "length (filter is_draw cmds) = nat ?g * nat ?g"
    unfolding e by (simp add: filter_is_draw_grid)
  also have "\<dots> = nat (?g * ?g)"
    using g by (simp add: nat_mult_distrib)
  finally have d: "length (filter is_draw cmds) = nat (?g * ?g)" .
  have "1 * 1 \<le> ?g * ?g"
    by (rule mult_mono) (use g in simp_all)
  moreover have "?g * ?g \<le> 10 * 10"
    by (rule mult_mono) (use g in simp_all)
  ultimately have b: "1 \<le> nat (?g * ?g)" "nat (?g * ?g) \<le> 100"
    by simp_all
  have pp: "pushed_positions cmds = pushed_positions (draw_grid ?g ?m 0)"
    unfolding e by simp
  have "0 \<le> ?g" using g by simp
  note ctr = grid_centre [OF this, of ?m, folded pp]
  have F: "filter is_grid_cmd cmds =
             concat (map (\<lambda>y. concat (map (\<lambda>x.
               [vkCmdPushConstants ((of_int x - of_int ?g / 2) * (5 / 2), 0,
                                    (of_int y - of_int ?g / 2) * (5 / 2)),
                draw ?m]) [0..?g - 1])) [0..?g - 1])"
    unfolding f by (rule grid)
  have b': "1 \<le> length (filter is_draw cmds)" "length (filter is_draw cmds) \<le> 100"
    unfolding d by (rule b)+
  show ?thesis
    by (intro exI [of _ cmds] conjI) (fact s g m F d b' ctr)+
qed

theorem render_draws_grid_witness:
  "\<not> isl (program driver_ok features_all 2 [] [] []) \<and>
   \<not> isl (render driver_ok frame_idle (projr (program driver_ok features_all 2 [] [] []))) \<and>
   gridSize (projr (program driver_ok features_all 2 [] [] [])) = 3 \<and>
   length (filter is_draw (last (submitted (calls
     (projr (render driver_ok frame_idle (projr (program driver_ok features_all 2 [] [] [])))))))) = 9 \<and>
   sum_list (map fst (pushed_positions (last (submitted (calls
     (projr (render driver_ok frame_idle (projr (program driver_ok features_all 2 [] [] [])))))))))
     = - 45 / 4"
proof -
  have p: "program driver_ok features_all 2 [] [] [] = Inr example_state"
    by (simp add: example_program)
  let ?s' = "projr (render driver_ok frame_idle example_state)"
  have r: "render driver_ok frame_idle example_state = Inr ?s'"
    by (rule render_Inr_projr) (rule example_state_running)
  from render_draws_grid [OF p r] obtain cmds where
    "submitted (calls ?s') = submitted (calls example_state) @ [cmds]"
    "length (filter is_draw cmds) = nat (gridSize example_state * gridSize example_state)"
    "sum_list (map fst (pushed_positions cmds)) =
             of_int (gridSize example_state * gridSize example_state) * (- 5 / 4)"
    by blast
  then have "length (filter is_draw (last (submitted (calls ?s')))) = 9"
    "sum_list (map fst (pushed_positions (last (submitted (calls ?s'))))) = - 45 / 4"
    by (simp_all add: example_state_running(4))
  moreover have "\<not> isl (render driver_ok frame_idle example_state)"
    using r by (metis isl_def sum.disc(2))
  ultimately show ?thesis
    by (simp add: p example_state_running(4))
qed

text \<open>
  The claim as stated has the grid centred around the origin. With the slider at 1 the
  frame draws one model, at \<open>(-1.25, 0, -1.25)\<close>.
\<close>

theorem grid_centred_on_origin_counterexample:
  "pushed_positions (last (submitted (calls (projr
     (program driver_ok features_all 2 [] []
        [UpdateUIOverlay driver_ok ui_grid_1, Render driver_ok frame_idle]))))) =
     [(- 5 / 4, 0, - 5 / 4)] \<and>
   \<not> centred_on_origin (pushed_positions (last (submitted (calls (projr
     (program driver_ok features_all 2 [] []
        [UpdateUIOverlay driver_ok ui_grid_1, Render driver_ok frame_idle]))))))"
proof -
  obtain s1 where u: "OnUpdateUIOverlay driver_ok ui_grid_1 example_state = Inr s1"
    using update_total [OF example_state_running(2), of ui_grid_1]
    by (cases "OnUpdateUIOverlay driver_ok ui_grid_1 example_state") simp_all
  have nr: "\<not> recreate_requested ui_grid_1 example_state"
    by (simp add: recreate_requested_def ui_grid_1_def ui_idle_def comboBox_def)
  from update_shape [OF u] nr have s1: "s1 = (settings_applied ui_grid_1 example_state)
      \<lparr>calls := calls example_state @ overlay_widgets ui_grid_1 example_state\<rparr>"
    by simp
  have g1: "gridSize s1 = 1" "models_objectIndex s1 = 3"
    unfolding s1
    by (simp_all add: settings_applied_def ui_grid_1_def ui_idle_def sliderInt_def comboBox_def
        example_state_running(4,5))
  from update_step [OF example_state_running(2) u] have r1: "running s1" by simp
  obtain s2 where r: "render driver_ok frame_idle s1 = Inr s2"
    using render_total [OF r1, of frame_idle]
    by (cases "render driver_ok frame_idle s1") simp_all
  from render_submits [OF r] obtain cmds where c: "recordCommands s1 = Inr cmds"
    and s: "submitted (calls s2) = submitted (calls s1) @ [cmds]"
    by blast
  have "pushed_positions cmds = pushed_positions (draw_grid 1 3 0)"
    unfolding recordCommands_Inr [OF c] g1 by simp
  also have "\<dots> = [(- 5 / 4, 0, - 5 / 4)]"
    by (simp add: pushed_positions_draw_grid grid_pos_def)
  finally have pp: "pushed_positions cmds = [(- 5 / 4, 0, - 5 / 4)]" .
  have "program driver_ok features_all 2 [] []
        [UpdateUIOverlay driver_ok ui_grid_1, Render driver_ok frame_idle] = Inr s2"
    by (simp add: example_program u r)
  then show ?thesis
    by (simp add: s pp centred_on_origin_def)
qed

lemma comboBox_fst:
  "fst (comboBox i items p) \<longleftrightarrow> (\<exists>j. p = Some j \<and> 0 \<le> j \<and> j < int (length items))"
  by (auto simp: comboBox_def split: option.splits)

lemma overlay_widgets_checkBox:
  "overlay_checkBox ''Wireframe'' \<in> set (overlay_widgets ui s) \<longleftrightarrow>
     header_Settings ui \<and> fillModeNonSolid (deviceFeatures s)"
  "overlay_checkBox ''Tessellation'' \<in> set (overlay_widgets ui s) \<longleftrightarrow>
     header_Settings ui \<and> tessellationShader (deviceFeatures s)"
  by (auto simp: overlay_widgets_def settings_widgets_def statistics_widgets_def)

lemma createPipelines_calls_members:
  "overlay_checkBox caption \<notin> set (createPipelines_calls s)"
  "(\<exists>ci. vkCreateGraphicsPipelines ci \<in> set (createPipelines_calls s))"
  by (auto simp: createPipelines_calls_def)

lemma overlay_widgets_texts:
  "filter is_overlay_text (overlay_widgets ui s) =
     (if pipelineStats s \<noteq> [] \<and> header_Pipeline_statistics ui
      then map (\<lambda>j. overlay_text (pipelineStatNames s ! j @ '': %d'') (pipelineStats s ! j))
             [0..<length (pipelineStats s)]
      else [])"
proof -
  have "filter is_overlay_text (settings_widgets s) = []"
    by (simp add: settings_widgets_def)
  moreover have "filter is_overlay_text
      (map (\<lambda>j. overlay_text (pipelineStatNames s ! j @ '': %d'') (pipelineStats s ! j)) ns) =
      map (\<lambda>j. overlay_text (pipelineStatNames s ! j @ '': %d'') (pipelineStats s ! j)) ns" for ns
    by (induction ns) simp_all
  ultimately show ?thesis
    by (simp add: overlay_widgets_def statistics_widgets_def)
qed

lemma update_new_calls:
  assumes "OnUpdateUIOverlay drv ui s = Inr s'"
  shows "drop (length (calls s)) (calls s') =
           overlay_widgets ui s @
           (if recreate_requested ui s then createPipelines_calls (settings_applied ui s) else [])"
  using update_shape [OF assms] by (simp split: if_splits)

text \<open>
  Claim C5. \<open>OnUpdateUIOverlay\<close> recreates the pipeline exactly when one of the five
  rasterization controls reports a change during the update: the cull mode combo box,
  the blending check box, the wireframe check box (shown only with
  \<open>fillModeNonSolid\<close>), the tessellation check box (shown only with
  \<open>tessellationShader\<close>) or the discard check box. The object type combo box and the
  grid size slider play no part in it.
\<close>

theorem overlay_recreates_pipeline_iff:
  assumes "OnUpdateUIOverlay drv ui s = Inr s'"
  shows "(let new = drop (length (calls s)) (calls s');
              changed =
                (header_Settings ui \<and>
                 ((\<exists>i. comboBox_Cull_mode ui = Some i \<and> 0 \<le> i \<and> i < 4) \<or>
                  checkBox_Blending ui \<or>
                  (fillModeNonSolid (deviceFeatures s) \<and> checkBox_Wireframe ui) \<or>
                  (tessellationShader (deviceFeatures s) \<and> checkBox_Tessellation ui) \<or>
                  checkBox_Discard ui))
          in ((\<exists>ci. vkCreateGraphicsPipelines ci \<in> set new) \<longleftrightarrow> changed) \<and>
             pipelines_created new = (if changed then [pipelineCI s'] else []) \<and>
             (overlay_checkBox ''Wireframe'' \<in> set new \<longleftrightarrow>
                header_Settings ui \<and> fillModeNonSolid (deviceFeatures s)) \<and>
             (overlay_checkBox ''Tessellation'' \<in> set new \<longleftrightarrow>
                header_Settings ui \<and> tessellationShader (deviceFeatures s)) \<and>
             (blending s' \<noteq> blending s \<longleftrightarrow> header_Settings ui \<and> checkBox_Blending ui) \<and>
             (wireframe s' \<noteq> wireframe s \<longleftrightarrow>
                header_Settings ui \<and> fillModeNonSolid (deviceFeatures s) \<and> checkBox_Wireframe ui) \<and>
             (tessellation s' \<noteq> tessellation s \<longleftrightarrow>
                header_Settings ui \<and> tessellationShader (deviceFeatures s) \<and>
                checkBox_Tessellation ui) \<and>
             (discard s' \<noteq> discard s \<longleftrightarrow> header_Settings ui \<and> checkBox_Discard ui) \<and>
             (cullMode s' \<noteq> cullMode s \<longrightarrow> changed))"
proof -
  let ?a = "settings_applied ui s"
  let ?changed = "header_Settings ui \<and>
                 ((\<exists>i. comboBox_Cull_mode ui = Some i \<and> 0 \<le> i \<and> i < 4) \<or>
                  checkBox_Blending ui \<or>
                  (fillModeNonSolid (deviceFeatures s) \<and> checkBox_Wireframe ui) \<or>
                  (tessellationShader (deviceFeatures s) \<and> checkBox_Tessellation ui) \<or>
                  checkBox_Discard ui)"
  have rq: "recreate_requested ui s \<longleftrightarrow> ?changed"
    by (simp add: recreate_requested_def comboBox_fst)
  note new = update_new_calls [OF assms]
  note sh = update_shape [OF assms]
  have w: "pipelines_created (overlay_widgets ui s) = []"
    "vkCreateGraphicsPipelines ci \<notin> set (overlay_widgets ui s)" for ci
    using overlay_widgets_kinds [of _ ui s] overlay_widgets_kinds [of "vkCreateGraphicsPipelines ci" ui s]
    by (auto intro!: pipelines_created_none)
  have m: "blending s' = blending ?a" "wireframe s' = wireframe ?a"
    "tessellation s' = tessellation ?a" "discard s' = discard ?a" "cullMode s' = cullMode ?a"
    "pipelineCI s' = pipelineCI ?a"
    using sh by (auto split: if_splits intro: pipelineCI_cong)
  have 1: "(\<exists>ci. vkCreateGraphicsPipelines ci \<in> set (drop (length (calls s)) (calls s'))) \<longleftrightarrow>
      ?changed"
    unfolding new rq [symmetric]
    using createPipelines_calls_members(2) [of ?a] by (auto simp: w)
  have 2: "pipelines_created (drop (length (calls s)) (calls s')) =
      (if ?changed then [pipelineCI s'] else [])"
    unfolding new rq [symmetric] m by (simp add: w createPipelines_calls_kinds)
  have 3: "overlay_checkBox ''Wireframe'' \<in> set (drop (length (calls s)) (calls s')) \<longleftrightarrow>
                header_Settings ui \<and> fillModeNonSolid (deviceFeatures s)"
    "overlay_checkBox ''Tessellation'' \<in> set (drop (length (calls s)) (calls s')) \<longleftrightarrow>
                header_Settings ui \<and> tessellationShader (deviceFeatures s)"
    unfolding new
    by (auto simp: overlay_widgets_checkBox createPipelines_calls_members(1))
  have 4: "blending s' \<noteq> blending s \<longleftrightarrow> header_Settings ui \<and> checkBox_Blending ui"
    "wireframe s' \<noteq> wireframe s \<longleftrightarrow>
                header_Settings ui \<and> fillModeNonSolid (deviceFeatures s) \<and> checkBox_Wireframe ui"
    "tessellation s' \<noteq> tessellation s \<longleftrightarrow>
                header_Settings ui \<and> tessellationShader (deviceFeatures s) \<and>
                checkBox_Tessellation ui"
    "discard s' \<noteq> discard s \<longleftrightarrow> header_Settings ui \<and> checkBox_Discard ui"
    unfolding m by (auto simp: settings_applied_def)
  have 5: "cullMode s' \<noteq> cullMode s \<longrightarrow> ?changed"
    unfolding m by (auto simp: settings_applied_def comboBox_def split: option.splits if_splits)
  show ?thesis
    unfolding Let_def using 1 2 3 4 5 by blast
qed

theorem overlay_recreates_pipeline_iff_witness:
  "\<not> isl (OnUpdateUIOverlay driver_ok ui_blending_clicked example_state) \<and>
   pipelines_created (drop (length (calls example_state))
     (calls (projr (OnUpdateUIOverlay driver_ok ui_blending_clicked example_state)))) \<noteq> [] \<and>
   \<not> isl (OnUpdateUIOverlay driver_ok ui_object_and_grid example_state) \<and>
   pipelines_created (drop (length (calls example_state))
     (calls (projr (OnUpdateUIOverlay driver_ok ui_object_and_grid example_state)))) = []"
proof -
  obtain s1 where u1: "OnUpdateUIOverlay driver_ok ui_blending_clicked example_state = Inr s1"
    using update_total [OF example_state_running(2), of ui_blending_clicked]
    by (cases "OnUpdateUIOverlay driver_ok ui_blending_clicked example_state") simp_all
  obtain s2 where u2: "OnUpdateUIOverlay driver_ok ui_object_and_grid example_state = Inr s2"
    using update_total [OF example_state_running(2), of ui_object_and_grid]
    by (cases "OnUpdateUIOverlay driver_ok ui_object_and_grid example_state") simp_all
  have "pipelines_created (drop (length (calls example_state)) (calls s1)) = [pipelineCI s1]"
    using overlay_recreates_pipeline_iff [OF u1]
    by (simp add: Let_def ui_blending_clicked_def ui_idle_def)
  moreover have "pipelines_created (drop (length (calls example_state)) (calls s2)) = []"
    using overlay_recreates_pipeline_iff [OF u2]
    by (simp add: Let_def ui_object_and_grid_def ui_idle_def)
  ultimately show ?thesis
    by (simp add: u1 u2)
qed

theorem features_guard_pipeline_modes_witness:
  "\<not> isl (program driver_ok features_all 2 [] []
            [UpdateUIOverlay driver_ok
               (ui_idle\<lparr>checkBox_Wireframe := True, checkBox_Tessellation := True\<rparr>)]) \<and>
   fillModeNonSolid features_all \<and> tessellationShader features_all \<and>
   \<not> isl (program driver_ok features_statistics_only 2 [] []
            [UpdateUIOverlay driver_ok
               (ui_idle\<lparr>checkBox_Wireframe := True, checkBox_Tessellation := True\<rparr>)]) \<and>
   \<not> wireframe (projr (program driver_ok features_statistics_only 2 [] []
            [UpdateUIOverlay driver_ok
               (ui_idle\<lparr>checkBox_Wireframe := True, checkBox_Tessellation := True\<rparr>)])) \<and>
   \<not> tessellation (projr (program driver_ok features_statistics_only 2 [] []
            [UpdateUIOverlay driver_ok
               (ui_idle\<lparr>checkBox_Wireframe := True, checkBox_Tessellation := True\<rparr>)])) \<and>
   list_all (\<lambda>ci. polygonMode (pRasterizationState ci) \<noteq> VK_POLYGON_MODE_LINE \<and>
                   \<not> uses_tessellation ci)
     (pipelines_created (calls (projr (program driver_ok features_statistics_only 2 [] []
            [UpdateUIOverlay driver_ok
               (ui_idle\<lparr>checkBox_Wireframe := True, checkBox_Tessellation := True\<rparr>)]))))"
proof -
  let ?ui = "ui_idle\<lparr>checkBox_Wireframe := True, checkBox_Tessellation := True\<rparr>"
  let ?acts = "[UpdateUIOverlay driver_ok ?ui]"
  obtain s where p: "program driver_ok features_all 2 [] [] ?acts = Inr s"
    using program_ok_Inr [of features_all ?acts 2 "[]" "[]"] by (auto simp: features_all_def)
  obtain t where q: "program driver_ok features_statistics_only 2 [] [] ?acts = Inr t"
    using program_ok_Inr [of features_statistics_only ?acts 2 "[]" "[]"]
    by (auto simp: features_statistics_only_def)
  have f: "fillModeNonSolid features_all" "tessellationShader features_all"
    "\<not> fillModeNonSolid features_statistics_only" "\<not> tessellationShader features_statistics_only"
    by (simp_all add: features_all_def features_statistics_only_def)
  from features_guard_pipeline_modes [OF q] f
  have "\<not> wireframe t" "\<not> tessellation t"
    "\<forall>ci \<in> set (pipelines_created (calls t)).
       polygonMode (pRasterizationState ci) \<noteq> VK_POLYGON_MODE_LINE \<and> \<not> uses_tessellation ci"
    by auto
  moreover from features_guard_pipeline_modes [OF p] have "deviceFeatures s = features_all"
    by simp
  ultimately show ?thesis
    using f by (simp add: p q list_all_iff)
qed

lemma update_not_OutOfRange:
  assumes "running s"
  shows "OnUpdateUIOverlay drv ui s \<noteq> Inl OutOfRange"
proof
  assume e: "OnUpdateUIOverlay drv ui s = Inl OutOfRange"
  have cp: "createPipelines drv t \<noteq> Inl OutOfRange" for t
    using createPipelines_Inl [of drv t OutOfRange] by auto
  have st: "OnUpdateUIOverlay_statistics 0 t \<noteq> Inl e"
    if "length (pipelineStats t) \<le> length (pipelineStatNames t)" for t e
    by (simp add: statistics_shape [OF that])
  let ?s0 = "emit (overlay_header ''Settings'') s"
  have l: "length (pipelineStats (snd (OnUpdateUIOverlay_settings ui ?s0))) \<le>
           length (pipelineStatNames (snd (OnUpdateUIOverlay_settings ui ?s0)))"
    "length (pipelineStats ?s0) \<le> length (pipelineStatNames ?s0)"
    using assms by (simp_all add: settings_shape emit_def running_def)
  from e show False
    using cp l
    by (auto simp: OnUpdateUIOverlay_def Let_def bind_result_eq_Inl emit_def
        split: if_splits dest!: st [THEN notE, rotated])
qed

text \<open>
  Claim C8, as amended. Once \<open>prepare\<close> has returned, \<open>pipelineStats\<close> and
  \<open>pipelineStatNames\<close> have the same size, 6 or 8, the \<open>queryCount\<close> of the pool, and
  neither \<open>render\<close> nor \<open>OnUpdateUIOverlay\<close> changes it. So the overlay never indexes
  \<open>pipelineStatNames\<close> out of bounds, every command buffer resets that many queries,
  and every read-back asks for eight bytes per counter. The loop that prints the
  counters runs when \<open>pipelineStats\<close> is not empty and the header
  \<open>Pipeline statistics\<close> is expanded, and then prints every counter with its name.
\<close>

theorem statistics_vectors_sized:
  assumes "program drv0 features frames assets shaders acts = Inr s"
  shows "length (pipelineStats s) = length (pipelineStatNames s) \<and>
         length (pipelineStats s) = (if tessellationShader features then 8 else 6) \<and>
         pipelineStats s \<noteq> [] \<and>
         (\<exists>pool. queryPool s = Some pool \<and> queryCount pool = length (pipelineStats s)) \<and>
         (\<forall>cmds \<in> set (submitted (calls s)).
            \<exists>rest. cmds = vkCmdResetQueryPool 0 (length (pipelineStats s)) # rest) \<and>
         (\<forall>a b n d e. vkGetQueryPoolResults a b n d e \<in> set (calls s) \<longrightarrow>
            n = length (pipelineStats s) * 8) \<and>
         (\<forall>drv fi s'. render drv fi s = Inr s' \<longrightarrow>
            length (pipelineStats s') = length (pipelineStats s) \<and>
            pipelineStatNames s' = pipelineStatNames s) \<and>
         (\<forall>drv ui. OnUpdateUIOverlay drv ui s \<noteq> Inl OutOfRange) \<and>
         (\<forall>drv ui s'. OnUpdateUIOverlay drv ui s = Inr s' \<longrightarrow>
            pipelineStats s' = pipelineStats s \<and> pipelineStatNames s' = pipelineStatNames s \<and>
            filter is_overlay_text (drop (length (calls s)) (calls s')) =
              (if header_Pipeline_statistics ui
               then map (\<lambda>i. overlay_text (pipelineStatNames s ! i @ '': %d'') (pipelineStats s ! i))
                      [0..<length (pipelineStats s)]
               else []))"
proof -
  from program_reach [OF assms] obtain fs where r: "running s" and d: "deviceFeatures s = features"
    and f: "filter is_readback_or_submit (calls s) =
              concat (map (\<lambda>cmds. [vkGetQueryPoolResults 0 1 (length (pipelineStats s) * 8) 8
                                        VK_QUERY_RESULT_64_BIT,
                                      submitFrame cmds]) fs)"
    and sb: "submitted (calls s) = fs"
    and c: "\<forall>cmds \<in> set fs. \<exists>t. running t \<and> deviceFeatures t = features \<and>
                length (pipelineStats t) = length (pipelineStats s) \<and>
                recordCommands t = Inr cmds"
    by blast
  from r d have 1: "length (pipelineStats s) = length (pipelineStatNames s)"
    "length (pipelineStats s) = (if tessellationShader features then 8 else 6)"
    and q: "queryPool s = Some (queryPoolInfo s)"
    by (simp_all add: running_def)
  from 1(2) have ne: "pipelineStats s \<noteq> []"
    by (auto split: if_splits)
  have "queryCount (queryPoolInfo s) = length (pipelineStats s)"
    using 1(2) d by (simp add: queryPoolInfo_def Let_def)
  with q have 2: "\<exists>pool. queryPool s = Some pool \<and> queryCount pool = length (pipelineStats s)"
    by simp
  have 3: "\<forall>cmds \<in> set (submitted (calls s)).
            \<exists>rest. cmds = vkCmdResetQueryPool 0 (length (pipelineStats s)) # rest"
  proof
    fix cmds
    assume "cmds \<in> set (submitted (calls s))"
    with c sb obtain t where t: "running t" "length (pipelineStats t) = length (pipelineStats s)"
      "recordCommands t = Inr cmds"
      by blast
    from running_recordCommands [OF t(1)] t(2,3)
    show "\<exists>rest. cmds = vkCmdResetQueryPool 0 (length (pipelineStats s)) # rest"
      by auto
  qed
  have 4: "\<forall>a b n d e. vkGetQueryPoolResults a b n d e \<in> set (calls s) \<longrightarrow>
            n = length (pipelineStats s) * 8"
  proof (intro allI impI)
    fix a b n d e
    assume "vkGetQueryPoolResults a b n d e \<in> set (calls s)"
    then have "vkGetQueryPoolResults a b n d e \<in> set (filter is_readback_or_submit (calls s))"
      by simp
    then show "n = length (pipelineStats s) * 8"
      unfolding f by (auto split: if_splits)
  qed
  have 5: "\<forall>drv fi s'. render drv fi s = Inr s' \<longrightarrow>
            length (pipelineStats s') = length (pipelineStats s) \<and>
            pipelineStatNames s' = pipelineStatNames s"
    by (auto dest!: render_shape)
  have 6: "\<forall>drv ui. OnUpdateUIOverlay drv ui s \<noteq> Inl OutOfRange"
    using update_not_OutOfRange [OF r] by blast
  have 7: "\<forall>drv ui s'. OnUpdateUIOverlay drv ui s = Inr s' \<longrightarrow>
            pipelineStats s' = pipelineStats s \<and> pipelineStatNames s' = pipelineStatNames s \<and>
            filter is_overlay_text (drop (length (calls s)) (calls s')) =
              (if header_Pipeline_statistics ui
               then map (\<lambda>i. overlay_text (pipelineStatNames s ! i @ '': %d'') (pipelineStats s ! i))
                      [0..<length (pipelineStats s)]
               else [])"
  proof (intro allI impI)
    fix drv ui s'
    assume u: "OnUpdateUIOverlay drv ui s = Inr s'"
    have "filter is_overlay_text (createPipelines_calls t) = []" for t
      by (simp add: createPipelines_calls_def)
    then have "filter is_overlay_text (drop (length (calls s)) (calls s')) =
        filter is_overlay_text (overlay_widgets ui s)"
      unfolding update_new_calls [OF u] by simp
    moreover have "pipelineStats s' = pipelineStats s \<and> pipelineStatNames s' = pipelineStatNames s"
      using update_shape [OF u] by (auto split: if_splits)
    ultimately show "pipelineStats s' = pipelineStats s \<and> pipelineStatNames s' = pipelineStatNames s \<and>
            filter is_overlay_text (drop (length (calls s)) (calls s')) =
              (if header_Pipeline_statistics ui
               then map (\<lambda>i. overlay_text (pipelineStatNames s ! i @ '': %d'') (pipelineStats s ! i))
                      [0..<length (pipelineStats s)]
               else [])"
      using ne by (simp add: overlay_widgets_texts)
  qed
  show ?thesis
    by (intro conjI) (fact 1 ne 2 3 4 5 6 7)+
qed

theorem statistics_vectors_sized_witness:
  "\<not> isl (program driver_ok features_all 2 [] [] [Render driver_ok frame_idle]) \<and>
   length (pipelineStats
     (projr (program driver_ok features_all 2 [] [] [Render driver_ok frame_idle]))) = 8 \<and>
   length (pipelineStatNames
     (projr (program driver_ok features_all 2 [] [] [Render driver_ok frame_idle]))) = 8 \<and>
   map hd (submitted (calls
     (projr (program driver_ok features_all 2 [] [] [Render driver_ok frame_idle])))) =
     [vkCmdResetQueryPool 0 8] \<and>
   \<not> isl (OnUpdateUIOverlay driver_ok ui_idle
     (projr (program driver_ok features_all 2 [] [] [Render driver_ok frame_idle]))) \<and>
   length (filter is_overlay_text
     (drop (length (calls
        (projr (program driver_ok features_all 2 [] [] [Render driver_ok frame_idle]))))
      (calls (projr (OnUpdateUIOverlay driver_ok ui_idle
        (projr (program driver_ok features_all 2 [] [] [Render driver_ok frame_idle]))))))) = 8"
proof -
  let ?acts = "[Render driver_ok frame_idle]"
  obtain s where p: "program driver_ok features_all 2 [] [] ?acts = Inr s"
    using program_ok_Inr [of features_all ?acts 2 "[]" "[]"] by (auto simp: features_all_def)
  note t = statistics_vectors_sized [OF p]
  have f: "tessellationShader features_all"
    by (simp add: features_all_def)
  from t f have l: "length (pipelineStats s) = 8" "length (pipelineStatNames s) = 8"
    by simp_all
  from program_reach [OF p] obtain fs where
    n: "length fs = length (filter is_Render ?acts)" and sb: "submitted (calls s) = fs"
    and r: "running s"
    by blast
  then obtain cmds where fs: "submitted (calls s) = [cmds]"
    by (auto simp: length_Suc_conv)
  with t l obtain rest where "cmds = vkCmdResetQueryPool 0 8 # rest"
    by auto
  with fs have 1: "map hd (submitted (calls s)) = [vkCmdResetQueryPool 0 8]"
    by simp
  obtain s' where u: "OnUpdateUIOverlay driver_ok ui_idle s = Inr s'"
    using update_total [OF r, of ui_idle]
    by (cases "OnUpdateUIOverlay driver_ok ui_idle s") simp_all
  from t u have "filter is_overlay_text (drop (length (calls s)) (calls s')) =
      map (\<lambda>i. overlay_text (pipelineStatNames s ! i @ '': %d'') (pipelineStats s ! i))
                      [0..<length (pipelineStats s)]"
    by (simp add: ui_idle_def)
  then have d: "length (filter is_overlay_text (drop (length (calls s)) (calls s'))) = 8"
    by (simp add: l)
  show ?thesis
    using l 1 d by (simp add: p u)
qed

text \<open>
  The claim as stated has the loop run whenever \<open>pipelineStats\<close> is not empty. With the
  header collapsed the vector holds its eight counters and the update prints none.
\<close>

theorem statistics_loop_iff_nonempty_counterexample:
  "pipelineStats example_state \<noteq> [] \<and>
   \<not> isl (OnUpdateUIOverlay driver_ok ui_statistics_collapsed example_state) \<and>
   filter is_overlay_text
     (drop (length (calls example_state))
        (calls (projr (OnUpdateUIOverlay driver_ok ui_statistics_collapsed example_state)))) = []"
proof -
  have ne: "pipelineStats example_state \<noteq> []"
    using example_state_running(2) by (auto simp: running_def split: if_splits)
  obtain s' where u: "OnUpdateUIOverlay driver_ok ui_statistics_collapsed example_state = Inr s'"
    using update_total [OF example_state_running(2), of ui_statistics_collapsed]
    by (cases "OnUpdateUIOverlay driver_ok ui_statistics_collapsed example_state") simp_all
  have "filter is_overlay_text (createPipelines_calls t) = []" for t
    by (simp add: createPipelines_calls_def)
  then have "filter is_overlay_text (drop (length (calls example_state)) (calls s')) =
      filter is_overlay_text (overlay_widgets ui_statistics_collapsed example_state)"
    unfolding update_new_calls [OF u] by simp
  also have "\<dots> = []"
    by (simp add: overlay_widgets_texts ui_statistics_collapsed_def ui_idle_def)
  finally show ?thesis
    using ne by (simp add: u)
qed

end
